theory Spec2Isabelle
  imports
    Main
    "HOL-Library.Char_ord"
    "HOL-Library.List_Lexorder"
begin

section \<open>The manifest generator \<open>scripts/generate-manifest.mjs\<close>\<close>

text \<open>
  The script scans configured directories for HTML fragments, extracts a heading and a
  first paragraph from each with regular expressions, and writes one JSON manifest.
  Every function of the script is embedded below under its own name. The functions of
  the JavaScript runtime that the script calls (\<open>String.prototype.replace\<close>,
  \<open>trim\<close>, \<open>RegExp\<close> matching, \<open>Set\<close>, \<open>path\<close>, \<open>fs\<close>) are embedded by
  what ECMAScript and Node.js define for the arguments the script passes.
\<close>

subsection \<open>JavaScript strings\<close>

text \<open>
  A JavaScript string is a sequence of UTF-16 code units. The model is \<^typ>\<open>string\<close>:
  one \<^typ>\<open>char\<close> stands for one code unit, so the code units covered are those
  below 256 (ASCII and Latin-1).
\<close>

definition isWhiteSpace :: "char \<Rightarrow> bool" where
  \<comment> \<open>The class \<open>\s\<close> of a regular expression, which is also what \<open>trim\<close> strips: TAB, LF, VT,
     FF, CR, SPACE and NO-BREAK SPACE are its members below 256.\<close>
  "isWhiteSpace c \<longleftrightarrow> (of_char c :: nat) \<in> {9, 10, 11, 12, 13, 32, 160}"

definition toLowerCaseChar :: "char \<Rightarrow> char" where
  \<comment> \<open>\<open>A\<close>-\<open>Z\<close> and the Latin-1 capitals \<open>0xC0\<close>-\<open>0xDE\<close> (without the
     multiplication sign \<open>0xD7\<close>) have their lower case 32 code units above.\<close>
  "toLowerCaseChar c =
     (let n = (of_char c :: nat)
      in if (65 \<le> n \<and> n \<le> 90) \<or> (192 \<le> n \<and> n \<le> 222 \<and> n \<noteq> 215)
         then char_of (n + 32) else c)"

definition toLowerCase :: "string \<Rightarrow> string" where
  "toLowerCase s = map toLowerCaseChar s"

definition canonicalize :: "char \<Rightarrow> char" where
  \<comment> \<open>The \<open>Canonicalize\<close> operation of a regular expression with the flag \<open>i\<close>: the upper
     case of the code unit when that is again one code unit of the model.\<close>
  "canonicalize c =
     (let n = (of_char c :: nat)
      in if (97 \<le> n \<and> n \<le> 122) \<or> (224 \<le> n \<and> n \<le> 254 \<and> n \<noteq> 247)
         then char_of (n - 32) else c)"

definition startsWith :: "string \<Rightarrow> string \<Rightarrow> bool" where
  "startsWith s p \<longleftrightarrow> take (length p) s = p"

definition endsWith :: "string \<Rightarrow> string \<Rightarrow> bool" where
  "endsWith s p \<longleftrightarrow> length p \<le> length s \<and> drop (length s - length p) s = p"

definition startsWithIgnoreCase :: "string \<Rightarrow> string \<Rightarrow> bool" where
  \<comment> \<open>The literal characters \<open>p\<close> of a pattern with the flag \<open>i\<close>, matched at the start of
     \<open>s\<close>.\<close>
  "startsWithIgnoreCase s p \<longleftrightarrow>
     length p \<le> length s \<and> map canonicalize (take (length p) s) = map canonicalize p"

definition trim :: "string \<Rightarrow> string" where
  "trim s = rev (dropWhile isWhiteSpace (rev (dropWhile isWhiteSpace s)))"

text \<open>
  \<open>text.replace(/lit/g, rep)\<close> for a pattern that is a non-empty literal and a replacement
  without \<open>$\<close>: the matches are found from left to right, they do not overlap, and the
  replacement text is not scanned again.
\<close>

function replaceAllLiteral :: "string \<Rightarrow> string \<Rightarrow> string \<Rightarrow> string" where
  "replaceAllLiteral pat rep [] = []"
| "replaceAllLiteral pat rep (c # cs) =
     (if pat \<noteq> [] \<and> startsWith (c # cs) pat
      then rep @ replaceAllLiteral pat rep (drop (length pat) (c # cs))
      else c # replaceAllLiteral pat rep cs)"
  by pat_completeness auto
termination
  by (relation "measure (\<lambda>(pat, rep, s). length s)") auto

text \<open>
  \<open>raw.replace(/<[^>]+>/g, ' ')\<close>: a match starts at a \<open><\<close>, takes every code unit up to
  the next \<open>>\<close> (at least one, and \<open>[^>]\<close> takes a further \<open><\<close> as well), and that
  \<open>>\<close>. The whole match becomes one space.
\<close>

function replaceTags :: "string \<Rightarrow> string" where
  "replaceTags [] = []"
| "replaceTags (c # cs) =
     (if c = CHR ''<'' \<and> takeWhile (\<lambda>d. d \<noteq> CHR ''>'') cs \<noteq> []
           \<and> dropWhile (\<lambda>d. d \<noteq> CHR ''>'') cs \<noteq> []
      then CHR '' '' # replaceTags (tl (dropWhile (\<lambda>d. d \<noteq> CHR ''>'') cs))
      else c # replaceTags cs)"
  by pat_completeness auto
termination
proof (relation "measure length")
  fix c :: char and cs :: string
  have "length (tl (dropWhile (\<lambda>d. d \<noteq> CHR ''>'') cs)) \<le> length cs"
    using length_dropWhile_le [of "\<lambda>d. d \<noteq> CHR ''>''" cs] by simp
  then show "(tl (dropWhile (\<lambda>d. d \<noteq> CHR ''>'') cs), c # cs) \<in> measure length"
    by simp
qed simp_all

text \<open>\<open>.replace(/\s+/g, ' ')\<close>: every maximal run of white space becomes one space.\<close>

function collapseWhiteSpace :: "string \<Rightarrow> string" where
  "collapseWhiteSpace [] = []"
| "collapseWhiteSpace (c # cs) =
     (if isWhiteSpace c then CHR '' '' # collapseWhiteSpace (dropWhile isWhiteSpace cs)
      else c # collapseWhiteSpace cs)"
  by pat_completeness auto
termination
  by (relation "measure length") (auto simp: length_dropWhile_le less_Suc_eq_le)

subsection \<open>\<open>decodeHtmlEntities\<close>\<close>

definition decodeHtmlEntities :: "string \<Rightarrow> string" where
  "decodeHtmlEntities text =
     replaceAllLiteral ''&#96;'' ''`''
       (replaceAllLiteral ''&#39;'' [CHR 0x27]
         (replaceAllLiteral ''&quot;'' [CHR 0x22]
           (replaceAllLiteral ''&gt;'' ''>''
             (replaceAllLiteral ''&lt;'' ''<''
               (replaceAllLiteral ''&amp;'' ''&'' text)))))"

subsection \<open>\<open>extractTextFromHtml\<close>\<close>

text \<open>
  The regular expression is \<open><TAG[^>]*>([\s\S]*?)<\/TAG>\<close> with the flag \<open>i\<close>, for a
  tag name of letters and digits. \<open>html.match\<close> returns the match that starts
  leftmost. At a start position the match is unique: \<open>[^>]*\<close> cannot pass a \<open>>\<close>, so
  the opening tag ends at the first \<open>>\<close>, and the lazy group ends before the first
  closing tag after it.
\<close>

fun lazyUntil :: "string \<Rightarrow> string \<Rightarrow> string option" where
  \<comment> \<open>\<open>([\s\S]*?)\<close> followed by the literal \<open>close\<close>: the text before the first place
     where \<open>close\<close> matches.\<close>
  "lazyUntil close [] = (if startsWithIgnoreCase [] close then Some [] else None)"
| "lazyUntil close (c # cs) =
     (if startsWithIgnoreCase (c # cs) close then Some []
      else map_option (\<lambda>r. c # r) (lazyUntil close cs))"

definition matchAt :: "string \<Rightarrow> string \<Rightarrow> string option" where
  \<comment> \<open>The first capture group of the match of the whole pattern at the start of \<open>s\<close>.\<close>
  "matchAt tagName s =
     (if startsWithIgnoreCase s (CHR ''<'' # tagName)
      then (case dropWhile (\<lambda>d. d \<noteq> CHR ''>'') (drop (Suc (length tagName)) s) of
              [] \<Rightarrow> None
            | _ # body \<Rightarrow> lazyUntil (''</'' @ tagName @ ''>'') body)
      else None)"

fun matchFirst :: "string \<Rightarrow> string \<Rightarrow> string option" where
  \<comment> \<open>\<open>html.match(regex)\<close>: the start positions are tried from left to right; \<open>None\<close> is
     the \<open>null\<close> of no match.\<close>
  "matchFirst tagName [] = matchAt tagName []"
| "matchFirst tagName (c # cs) =
     (case matchAt tagName (c # cs) of
        Some raw \<Rightarrow> Some raw
      | None \<Rightarrow> matchFirst tagName cs)"

definition extractTextFromHtml :: "string \<Rightarrow> string \<Rightarrow> string" where
  "extractTextFromHtml html tagName =
     (case matchFirst tagName html of
        None \<Rightarrow> []
      | Some raw \<Rightarrow> decodeHtmlEntities (trim (collapseWhiteSpace (replaceTags raw))))"

subsection \<open>\<open>orderFiles\<close>\<close>

text \<open>
  A JavaScript \<open>Set\<close> keeps its members in insertion order, each once. It is modelled
  by the list of its members in that order: \<open>new Set(xs)\<close> adds the elements of \<open>xs\<close>
  one by one, \<open>has\<close> is membership, \<open>delete\<close> removes the member, and \<open>[...set]\<close> is the
  list itself.
\<close>

definition Set_add :: "'a list \<Rightarrow> 'a \<Rightarrow> 'a list" where
  "Set_add s x = (if x \<in> set s then s else s @ [x])"

definition Set_new :: "'a list \<Rightarrow> 'a list" where
  "Set_new xs = foldl Set_add [] xs"

definition Set_has :: "'a list \<Rightarrow> 'a \<Rightarrow> bool" where
  "Set_has s x \<longleftrightarrow> x \<in> set s"

definition Set_delete :: "'a list \<Rightarrow> 'a \<Rightarrow> 'a list" where
  "Set_delete s x = removeAll x s"

text \<open>
  The loop over \<open>fileOrder\<close>, on the pair of the mutable set \<open>existing\<close> and the array
  \<open>ordered\<close>.
\<close>

fun orderLoop :: "string list \<Rightarrow> string list \<times> string list \<Rightarrow> string list \<times> string list" where
  "orderLoop [] (existing, ordered) = (existing, ordered)"
| "orderLoop (name # rest) (existing, ordered) =
     (if Set_has existing name
      then orderLoop rest (Set_delete existing name, ordered @ [name])
      else orderLoop rest (existing, ordered))"

text \<open>
  \<open>[...existing].sort((a, b) => a.localeCompare(b))\<close>. ECMAScript leaves the result of
  \<open>localeCompare\<close> to the host (its locale's collation) and demands only that it is a
  consistent comparison; \<open>Array.prototype.sort\<close> is stable. The collation is therefore the
  parameter \<open>collate\<close>, the collation key of a name: \<open>a.localeCompare(b)\<close> is negative,
  zero or positive as \<open>collate a\<close> is less than, equal to or greater than \<open>collate b\<close>,
  and the sort is the stable \<^const>\<open>sort_key\<close>. The parameter \<open>fileOrder\<close> is \<open>None\<close>
  for \<open>undefined\<close>, which the default \<open>[]\<close> replaces.
\<close>

definition orderFiles ::
  "(string \<Rightarrow> 'k::linorder) \<Rightarrow> string list \<Rightarrow> string list option \<Rightarrow> string list" where
  "orderFiles collate files fileOrder =
     (case orderLoop (case fileOrder of None \<Rightarrow> [] | Some names \<Rightarrow> names) (Set_new files, []) of
        (existing, ordered) \<Rightarrow> ordered @ sort_key collate existing)"

subsection \<open>Paths\<close>

text \<open>
  An absolute, normalised POSIX path is the list of its components (\<open>[]\<close> is \<open>/\<close>).
  \<open>ROOT\<close>, the parent of the script's directory, is such a path and a parameter of
  everything that uses it.
\<close>

type_synonym path = "string list"

fun splitPath :: "string \<Rightarrow> string list" where
  \<comment> \<open>The segments of a path string between its \<open>/\<close>.\<close>
  "splitPath [] = [[]]"
| "splitPath (c # cs) =
     (if c = CHR ''/'' then [] # splitPath cs
      else (case splitPath cs of
              [] \<Rightarrow> [[c]]
            | seg # segs \<Rightarrow> (c # seg) # segs))"

definition normalizeSegment :: "path \<Rightarrow> string \<Rightarrow> path" where
  "normalizeSegment p seg =
     (if seg = [] \<or> seg = ''.'' then p
      else if seg = ''..'' then butlast p
      else p @ [seg])"

definition path_join :: "path \<Rightarrow> string \<Rightarrow> path" where
  \<comment> \<open>\<open>path.join(base, rest)\<close> for an absolute \<open>base\<close>: the segments of \<open>rest\<close> are
     appended and \<open>.\<close>, \<open>..\<close> and empty segments are resolved.\<close>
  "path_join base rest = foldl normalizeSegment base (splitPath rest)"

fun path_relative :: "path \<Rightarrow> path \<Rightarrow> string list" where
  \<comment> \<open>\<open>path.relative(from, to)\<close>, as the segments of the relative path.\<close>
  "path_relative (a # from) (b # to) =
     (if a = b then path_relative from to
      else replicate (Suc (length from)) ''..'' @ (b # to))"
| "path_relative from to = replicate (length from) ''..'' @ to"

fun joinSegments :: "string list \<Rightarrow> string" where
  "joinSegments [] = []"
| "joinSegments [seg] = seg"
| "joinSegments (seg # segs) = seg @ ''/'' @ joinSegments segs"

text \<open>
  \<open>path.extname\<close> and \<open>path.basename\<close> for a file name, that is a single component
  without \<open>/\<close>, as \<open>readdir\<close> returns. The extension starts at the last dot; there
  is none when the name has no dot, when its only dot is its first character, and for
  the name \<open>..\<close>.
\<close>

definition extname :: "string \<Rightarrow> string" where
  "extname fileName =
     (let afterDot = takeWhile (\<lambda>c. c \<noteq> CHR ''.'') (rev fileName);
          startDot = length fileName - Suc (length afterDot)
      in if CHR ''.'' \<notin> set fileName \<or> startDot = 0 \<or> fileName = ''..'' then []
         else drop startDot fileName)"

definition basename :: "string \<Rightarrow> string \<Rightarrow> string" where
  "basename fileName suffix =
     (if suffix \<noteq> [] \<and> length suffix \<le> length fileName
      then (if suffix = fileName then []
            else if endsWith fileName suffix
            then take (length fileName - length suffix) fileName
            else fileName)
      else fileName)"

subsection \<open>The file system\<close>

text \<open>
  The file system is a store from absolute paths to nodes. A regular file holds its text
  (\<open>readFile\<close> and \<open>writeFile\<close> with the encoding \<open>utf-8\<close> convert between that text and
  the bytes on disk), a directory holds the names of its entries in the order in which
  \<open>readdir\<close> returns them, and \<open>Other\<close> is any node that is neither (a socket, a
  device, a symbolic link as \<open>readdir\<close> reports it), whose reads and writes fail.
  Every path names a node of its own: links that make two paths share a node are outside
  the model.
\<close>

datatype node = File string | Directory "string list" | Other

type_synonym filesystem = "path \<Rightarrow> node option"

datatype error =
    ENOENT path                \<comment> \<open>no such file or directory\<close>
  | ENOTDIR path               \<comment> \<open>\<open>readdir\<close> of a node that is no directory\<close>
  | EISDIR path                \<comment> \<open>a read or write of a directory as a file\<close>
  | ENXIO path                 \<comment> \<open>a read or write of a node that is neither\<close>
  | SyntaxError                \<comment> \<open>\<open>JSON.parse\<close> rejected the configuration\<close>
  | DirectoryNotFound path     \<comment> \<open>\<open>new Error(`Directory not found: ${dir}`)\<close>\<close>
  | NotADirectory path         \<comment> \<open>\<open>new Error(`${dir} is not a directory`)\<close>\<close>

record Dirent =
  dirent_name :: string
  dirent_isFile :: bool

definition isDirectory :: "node \<Rightarrow> bool" where
  "isDirectory n = (case n of Directory names \<Rightarrow> True | _ \<Rightarrow> False)"

definition isFile :: "node option \<Rightarrow> bool" where
  "isFile n = (case n of Some (File text) \<Rightarrow> True | _ \<Rightarrow> False)"

definition fs_stat :: "filesystem \<Rightarrow> path \<Rightarrow> error + node" where
  "fs_stat fs p = (case fs p of None \<Rightarrow> Inl (ENOENT p) | Some n \<Rightarrow> Inr n)"

definition fs_readdir :: "filesystem \<Rightarrow> path \<Rightarrow> error + Dirent list" where
  \<comment> \<open>\<open>fs.readdir(dir, { withFileTypes: true })\<close>\<close>
  "fs_readdir fs p =
     (case fs p of
        None \<Rightarrow> Inl (ENOENT p)
      | Some (Directory names) \<Rightarrow>
          Inr (map (\<lambda>n. \<lparr>dirent_name = n, dirent_isFile = isFile (fs (p @ [n]))\<rparr>) names)
      | Some _ \<Rightarrow> Inl (ENOTDIR p))"

definition fs_readFile :: "filesystem \<Rightarrow> path \<Rightarrow> error + string" where
  "fs_readFile fs p =
     (case fs p of
        None \<Rightarrow> Inl (ENOENT p)
      | Some (File text) \<Rightarrow> Inr text
      | Some (Directory names) \<Rightarrow> Inl (EISDIR p)
      | Some Other \<Rightarrow> Inl (ENXIO p))"

definition fs_writeFile :: "filesystem \<Rightarrow> path \<Rightarrow> string \<Rightarrow> error + filesystem" where
  \<comment> \<open>An existing regular file gets the new text. A new file needs its directory, which
     lists it last.\<close>
  "fs_writeFile fs p text =
     (case fs p of
        Some (File old) \<Rightarrow> Inr (fs(p \<mapsto> File text))
      | Some (Directory names) \<Rightarrow> Inl (EISDIR p)
      | Some Other \<Rightarrow> Inl (ENXIO p)
      | None \<Rightarrow>
          (case (if p = [] then None else fs (butlast p)) of
             Some (Directory names) \<Rightarrow>
               Inr (fs(butlast p \<mapsto> Directory (names @ [last p]), p \<mapsto> File text))
           | _ \<Rightarrow> Inl (ENOENT p)))"

definition CONFIG_PATH :: "path \<Rightarrow> path" where
  "CONFIG_PATH ROOT = ROOT @ [''content'', ''manifest.config.json'']"

definition OUTPUT_PATH :: "path \<Rightarrow> path" where
  "OUTPUT_PATH ROOT = ROOT @ [''content'', ''manifest.json'']"

subsection \<open>The configuration and the manifest\<close>

text \<open>
  The shapes are those the script reads from the parsed configuration and builds for the
  manifest, with the field types of the specification's data model. A field that may be
  absent is an \<open>option\<close>; \<open>None\<close> stands for \<open>undefined\<close> and for \<open>null\<close> where the script
  tests with \<open>??\<close>.
\<close>

record Override =
  override_label :: "string option"
  override_description :: "string option"

record ChildConfig =
  child_id :: string
  child_label :: string
  child_description :: string
  child_directory :: string
  child_fileOrder :: "string list option"
  child_overrides :: "(string \<Rightarrow> Override option) option"

record CollectionConfig =
  collection_label :: string
  collection_children :: "ChildConfig list"

record Configuration =
  config_previewTitle :: string
  config_previewDescription :: string
  config_collections :: "CollectionConfig list"

record FileEntry =
  file_id :: string
  file_label :: string
  file_description :: string
  file_path :: string

record ManifestChild =
  mchild_id :: string
  mchild_label :: string
  mchild_description :: string
  mchild_files :: "FileEntry list"

record ManifestCollection =
  mcollection_label :: string
  mcollection_children :: "ManifestChild list"

record Manifest =
  manifest_previewTitle :: string
  manifest_previewDescription :: string
  manifest_collections :: "ManifestCollection list"

subsection \<open>\<open>readConfig\<close>, \<open>ensureDirectoryExists\<close>, \<open>listHtmlFiles\<close>\<close>

text \<open>
  \<open>JSON.parse\<close> and the reading of the parsed value as a configuration are the parameter
  \<open>parse\<close>: \<open>None\<close> when the text is no JSON.
\<close>

definition readConfig ::
  "(string \<Rightarrow> Configuration option) \<Rightarrow> path \<Rightarrow> filesystem \<Rightarrow> error + Configuration" where
  "readConfig parse ROOT fs =
     (case fs_readFile fs (CONFIG_PATH ROOT) of
        Inl e \<Rightarrow> Inl e
      | Inr raw \<Rightarrow> (case parse raw of None \<Rightarrow> Inl SyntaxError | Some config \<Rightarrow> Inr config))"

definition ensureDirectoryExists :: "filesystem \<Rightarrow> path \<Rightarrow> error + unit" where
  \<comment> \<open>The \<open>catch\<close> turns \<open>ENOENT\<close> into its own error and throws every other error again,
     the one of the \<open>try\<close> block included.\<close>
  "ensureDirectoryExists fs dir =
     (case (case fs_stat fs dir of
              Inl e \<Rightarrow> Inl e
            | Inr stat \<Rightarrow> if \<not> isDirectory stat then Inl (NotADirectory dir) else Inr ()) of
        Inl (ENOENT p) \<Rightarrow> Inl (DirectoryNotFound dir)
      | Inl e \<Rightarrow> Inl e
      | Inr u \<Rightarrow> Inr u)"

definition listHtmlFiles :: "filesystem \<Rightarrow> path \<Rightarrow> error + string list" where
  "listHtmlFiles fs dir =
     (case fs_readdir fs dir of
        Inl e \<Rightarrow> Inl e
      | Inr entries \<Rightarrow>
          Inr (map dirent_name
                 (filter (\<lambda>entry. dirent_isFile entry
                            \<and> endsWith (toLowerCase (dirent_name entry)) ''.html'')
                    entries)))"

subsection \<open>\<open>buildFileEntry\<close>\<close>

definition nullish :: "'a option \<Rightarrow> 'a \<Rightarrow> 'a" where
  \<comment> \<open>\<open>a ?? b\<close>: \<open>b\<close> only when \<open>a\<close> is \<open>null\<close> or \<open>undefined\<close>.\<close>
  "nullish a b = (case a of None \<Rightarrow> b | Some v \<Rightarrow> v)"

definition orElse :: "string \<Rightarrow> string \<Rightarrow> string" where
  \<comment> \<open>\<open>a || b\<close> on strings: \<open>b\<close> when \<open>a\<close> is the empty string, the one falsy string.\<close>
  "orElse a b = (if a = [] then b else a)"

text \<open>
  \<open>dir\<close> is the absolute directory and \<open>fileName\<close> one of its entry names, so
  \<open>path.join(dir, fileName)\<close> is the path \<open>dir @ [fileName]\<close>. A string is never
  \<open>null\<close> or \<open>undefined\<close>, hence the \<^const>\<open>Some\<close> around \<open>headingText\<close>. In
  \<open>overrides[slug] ?? {}\<close> the empty object has neither field.
\<close>

definition buildFileEntry ::
  "path \<Rightarrow> filesystem \<Rightarrow> path \<Rightarrow> string \<Rightarrow> (string \<Rightarrow> Override option) \<Rightarrow> error + FileEntry" where
  "buildFileEntry ROOT fs dir fileName overrides =
     (case fs_readFile fs (dir @ [fileName]) of
        Inl e \<Rightarrow> Inl e
      | Inr raw \<Rightarrow>
          (let headingText = orElse (extractTextFromHtml raw ''h2'') (extractTextFromHtml raw ''h1'');
               descriptionText = extractTextFromHtml raw ''p'';
               slug = basename fileName (extname fileName);
               override = nullish (overrides slug)
                            \<lparr>override_label = None, override_description = None\<rparr>
           in Inr \<lparr>file_id = slug,
                   file_label = nullish (override_label override) (nullish (Some headingText) slug),
                   file_description = nullish (override_description override) descriptionText,
                   file_path = replaceAllLiteral [CHR 0x5C] ''/''
                                 (joinSegments (path_relative ROOT dir @ [fileName]))\<rparr>))"

subsection \<open>\<open>buildManifest\<close>\<close>

text \<open>
  The three nested \<open>for\<close> loops, innermost first. An error of any step is the error of
  the whole: nothing after it runs.
\<close>

fun buildFiles ::
  "path \<Rightarrow> filesystem \<Rightarrow> path \<Rightarrow> (string \<Rightarrow> Override option) \<Rightarrow> string list
     \<Rightarrow> error + FileEntry list" where
  "buildFiles ROOT fs dir overrides [] = Inr []"
| "buildFiles ROOT fs dir overrides (fileName # rest) =
     (case buildFileEntry ROOT fs dir fileName overrides of
        Inl e \<Rightarrow> Inl e
      | Inr entry \<Rightarrow>
          (case buildFiles ROOT fs dir overrides rest of
             Inl e \<Rightarrow> Inl e
           | Inr entries \<Rightarrow> Inr (entry # entries)))"

definition buildChild ::
  "(string \<Rightarrow> 'k::linorder) \<Rightarrow> path \<Rightarrow> filesystem \<Rightarrow> ChildConfig \<Rightarrow> error + ManifestChild" where
  "buildChild collate ROOT fs child =
     (let directory = path_join ROOT (child_directory child)
      in case ensureDirectoryExists fs directory of
           Inl e \<Rightarrow> Inl e
         | Inr u \<Rightarrow>
             (case listHtmlFiles fs directory of
                Inl e \<Rightarrow> Inl e
              | Inr htmlFiles \<Rightarrow>
                  (let orderedFiles = orderFiles collate htmlFiles (child_fileOrder child);
                       overrides = nullish (child_overrides child) (\<lambda>slug. None)
                   in case buildFiles ROOT fs directory overrides orderedFiles of
                        Inl e \<Rightarrow> Inl e
                      | Inr entries \<Rightarrow>
                          Inr \<lparr>mchild_id = child_id child,
                               mchild_label = child_label child,
                               mchild_description = child_description child,
                               mchild_files = entries\<rparr>)))"

fun buildChildren ::
  "(string \<Rightarrow> 'k::linorder) \<Rightarrow> path \<Rightarrow> filesystem \<Rightarrow> ChildConfig list
     \<Rightarrow> error + ManifestChild list" where
  "buildChildren collate ROOT fs [] = Inr []"
| "buildChildren collate ROOT fs (child # rest) =
     (case buildChild collate ROOT fs child of
        Inl e \<Rightarrow> Inl e
      | Inr c \<Rightarrow>
          (case buildChildren collate ROOT fs rest of
             Inl e \<Rightarrow> Inl e
           | Inr cs \<Rightarrow> Inr (c # cs)))"

fun buildCollections ::
  "(string \<Rightarrow> 'k::linorder) \<Rightarrow> path \<Rightarrow> filesystem \<Rightarrow> CollectionConfig list
     \<Rightarrow> error + ManifestCollection list" where
  "buildCollections collate ROOT fs [] = Inr []"
| "buildCollections collate ROOT fs (col # rest) =
     (case buildChildren collate ROOT fs (collection_children col) of
        Inl e \<Rightarrow> Inl e
      | Inr cs \<Rightarrow>
          (case buildCollections collate ROOT fs rest of
             Inl e \<Rightarrow> Inl e
           | Inr cols \<Rightarrow>
               Inr (\<lparr>mcollection_label = collection_label col,
                     mcollection_children = cs\<rparr> # cols)))"

definition buildManifest ::
  "(string \<Rightarrow> 'k::linorder) \<Rightarrow> (string \<Rightarrow> Configuration option) \<Rightarrow> path \<Rightarrow> filesystem
     \<Rightarrow> error + Manifest" where
  "buildManifest collate parse ROOT fs =
     (case readConfig parse ROOT fs of
        Inl e \<Rightarrow> Inl e
      | Inr config \<Rightarrow>
          (case buildCollections collate ROOT fs (config_collections config) of
             Inl e \<Rightarrow> Inl e
           | Inr cols \<Rightarrow>
               Inr \<lparr>manifest_previewTitle = config_previewTitle config,
                    manifest_previewDescription = config_previewDescription config,
                    manifest_collections = cols\<rparr>))"

subsection \<open>\<open>writeManifest\<close>\<close>

text \<open>
  \<open>JSON.stringify(manifest, null, 2)\<close> on the values the manifest is made of: strings,
  arrays and objects whose keys are in the order in which the script wrote them.
\<close>

datatype json = JString string | JArray "json list" | JObject "(string \<times> json) list"

definition hexDigit :: "nat \<Rightarrow> char" where
  "hexDigit n = (if n < 10 then char_of (48 + n) else char_of (87 + n))"

definition quoteChar :: "char \<Rightarrow> string" where
  "quoteChar c =
     (let n = (of_char c :: nat)
      in if n = 8 then [CHR 0x5C, CHR ''b'']
         else if n = 9 then [CHR 0x5C, CHR ''t'']
         else if n = 10 then [CHR 0x5C, CHR ''n'']
         else if n = 12 then [CHR 0x5C, CHR ''f'']
         else if n = 13 then [CHR 0x5C, CHR ''r'']
         else if n = 34 then [CHR 0x5C, CHR 0x22]
         else if n = 92 then [CHR 0x5C, CHR 0x5C]
         else if n < 32 then [CHR 0x5C, CHR ''u'', CHR ''0'', CHR ''0'',
                              hexDigit (n div 16), hexDigit (n mod 16)]
         else [c])"

definition quoteJSONString :: "string \<Rightarrow> string" where
  "quoteJSONString s = [CHR 0x22] @ concat (map quoteChar s) @ [CHR 0x22]"

fun joinWith :: "string \<Rightarrow> string list \<Rightarrow> string" where
  "joinWith sep [] = []"
| "joinWith sep [x] = x"
| "joinWith sep (x # xs) = x @ sep @ joinWith sep xs"

fun stringify :: "string \<Rightarrow> json \<Rightarrow> string" where
  \<comment> \<open>The first argument is the indentation of the value's own line.\<close>
  "stringify indent (JString s) = quoteJSONString s"
| "stringify indent (JArray xs) =
     (if xs = [] then ''[]''
      else ''['' @ [CHR 0x0A] @ indent @ ''  ''
           @ joinWith ('','' @ [CHR 0x0A] @ indent @ ''  '')
               (map (stringify (indent @ ''  '')) xs)
           @ [CHR 0x0A] @ indent @ '']'')"
| "stringify indent (JObject ps) =
     (if ps = [] then ''{}''
      else ''{'' @ [CHR 0x0A] @ indent @ ''  ''
           @ joinWith ('','' @ [CHR 0x0A] @ indent @ ''  '')
               (map (\<lambda>p. quoteJSONString (fst p) @ '': '' @ stringify (indent @ ''  '') (snd p)) ps)
           @ [CHR 0x0A] @ indent @ ''}'')"

definition json_of_file :: "FileEntry \<Rightarrow> json" where
  "json_of_file f =
     JObject [(''id'', JString (file_id f)), (''label'', JString (file_label f)),
              (''description'', JString (file_description f)), (''path'', JString (file_path f))]"

definition json_of_child :: "ManifestChild \<Rightarrow> json" where
  "json_of_child c =
     JObject [(''id'', JString (mchild_id c)), (''label'', JString (mchild_label c)),
              (''description'', JString (mchild_description c)),
              (''files'', JArray (map json_of_file (mchild_files c)))]"

definition json_of_collection :: "ManifestCollection \<Rightarrow> json" where
  "json_of_collection c =
     JObject [(''label'', JString (mcollection_label c)),
              (''children'', JArray (map json_of_child (mcollection_children c)))]"

definition json_of_manifest :: "Manifest \<Rightarrow> json" where
  "json_of_manifest m =
     JObject [(''previewTitle'', JString (manifest_previewTitle m)),
              (''previewDescription'', JString (manifest_previewDescription m)),
              (''collections'', JArray (map json_of_collection (manifest_collections m)))]"

definition payload :: "Manifest \<Rightarrow> string" where
  "payload manifest = stringify [] (json_of_manifest manifest) @ [CHR 0x0A]"

definition writeManifest :: "path \<Rightarrow> filesystem \<Rightarrow> Manifest \<Rightarrow> error + filesystem" where
  "writeManifest ROOT fs manifest = fs_writeFile fs (OUTPUT_PATH ROOT) (payload manifest)"

subsection \<open>\<open>main\<close>\<close>

text \<open>
  What a run leaves behind: the exit code of the process, the error that \<open>console.error\<close>
  printed, the line that \<open>console.log\<close> printed, and the file system.
\<close>

record run =
  exitCode :: nat
  printedError :: "error option"
  printedLog :: "string option"
  fileSystem :: filesystem

definition main ::
  "(string \<Rightarrow> 'k::linorder) \<Rightarrow> (string \<Rightarrow> Configuration option) \<Rightarrow> path \<Rightarrow> filesystem \<Rightarrow> run" where
  "main collate parse ROOT fs =
     (case (case buildManifest collate parse ROOT fs of
              Inl e \<Rightarrow> Inl e
            | Inr manifest \<Rightarrow> writeManifest ROOT fs manifest) of
        Inl e \<Rightarrow>
          \<lparr>exitCode = 1, printedError = Some e, printedLog = None, fileSystem = fs\<rparr>
      | Inr fs' \<Rightarrow>
          \<lparr>exitCode = 0, printedError = None,
           printedLog = Some (''Generated manifest at ''
                              @ joinSegments (path_relative ROOT (OUTPUT_PATH ROOT))),
           fileSystem = fs'\<rparr>)"

subsection \<open>The specification's wording, for comparison\<close>

text \<open>
  The specification describes the post-processing as removing the inline tags and the
  decoding as a table of six references. These definitions follow those words: a tag
  (the same match as in \<^const>\<open>replaceTags\<close>) is deleted, and the table is applied in
  one pass over the text, each reference decoded where it stands.
\<close>

function removeTags :: "string \<Rightarrow> string" where
  "removeTags [] = []"
| "removeTags (c # cs) =
     (if c = CHR ''<'' \<and> takeWhile (\<lambda>d. d \<noteq> CHR ''>'') cs \<noteq> []
           \<and> dropWhile (\<lambda>d. d \<noteq> CHR ''>'') cs \<noteq> []
      then removeTags (tl (dropWhile (\<lambda>d. d \<noteq> CHR ''>'') cs))
      else c # removeTags cs)"
  by pat_completeness auto
termination
proof (relation "measure length")
  fix c :: char and cs :: string
  have "length (tl (dropWhile (\<lambda>d. d \<noteq> CHR ''>'') cs)) \<le> length cs"
    using length_dropWhile_le [of "\<lambda>d. d \<noteq> CHR ''>''" cs] by simp
  then show "(tl (dropWhile (\<lambda>d. d \<noteq> CHR ''>'') cs), c # cs) \<in> measure length"
    by simp
qed simp_all

definition postProcessAsSpecified :: "string \<Rightarrow> string" where
  "postProcessAsSpecified raw = decodeHtmlEntities (trim (collapseWhiteSpace (removeTags raw)))"

definition entities :: "(string \<times> string) list" where
  "entities = [(''&amp;'', ''&''), (''&lt;'', ''<''), (''&gt;'', ''>''),
               (''&quot;'', [CHR 0x22]), (''&#39;'', [CHR 0x27]), (''&#96;'', ''`'')]"

function decodeSimultaneous :: "string \<Rightarrow> string" where
  "decodeSimultaneous [] = []"
| "decodeSimultaneous (c # cs) =
     (case find (\<lambda>er. startsWith (c # cs) (fst er)) entities of
        Some er \<Rightarrow> snd er @ decodeSimultaneous (drop (length (fst er) - 1) cs)
      | None \<Rightarrow> c # decodeSimultaneous cs)"
  by pat_completeness auto
termination
  by (relation "measure length") auto

text \<open>
  The inputs of a run are the text of the configuration file and, for every configured
  child directory, whether it is a directory, its listing of HTML files and the texts of
  the listed files. Two file systems have the same inputs when they agree on these;
  they may differ anywhere else, for instance in an earlier manifest.
\<close>

definition sameDirectory :: "filesystem \<Rightarrow> filesystem \<Rightarrow> path \<Rightarrow> bool" where
  "sameDirectory fs1 fs2 dir \<longleftrightarrow>
     ensureDirectoryExists fs1 dir = ensureDirectoryExists fs2 dir
     \<and> listHtmlFiles fs1 dir = listHtmlFiles fs2 dir
     \<and> (case listHtmlFiles fs1 dir of
          Inl e \<Rightarrow> True
        | Inr names \<Rightarrow>
            \<forall>name\<in>set names. fs_readFile fs1 (dir @ [name]) = fs_readFile fs2 (dir @ [name]))"

definition sameInputs ::
  "(string \<Rightarrow> Configuration option) \<Rightarrow> path \<Rightarrow> filesystem \<Rightarrow> filesystem \<Rightarrow> bool" where
  "sameInputs parse ROOT fs1 fs2 \<longleftrightarrow>
     fs_readFile fs1 (CONFIG_PATH ROOT) = fs_readFile fs2 (CONFIG_PATH ROOT)
     \<and> (case readConfig parse ROOT fs1 of
          Inl e \<Rightarrow> True
        | Inr config \<Rightarrow>
            \<forall>col\<in>set (config_collections config). \<forall>child\<in>set (collection_children col).
              sameDirectory fs1 fs2 (path_join ROOT (child_directory child)))"

subsection \<open>A sample site\<close>

text \<open>
  A small project on which the general theorems below are instantiated: one collection
  with one child directory \<open>content/pages\<close>, which holds three HTML files, a text file,
  a subdirectory with an HTML file of its own and a special node with an HTML name.
\<close>

definition sampleRoot :: path where
  "sampleRoot = [''srv'', ''site'']"

definition sampleChild :: ChildConfig where
  "sampleChild =
     \<lparr>child_id = ''pages'', child_label = ''Pages'', child_description = ''All pages'',
      child_directory = ''content/pages'',
      child_fileOrder = Some [''myfile.html'', ''ghost.html''],
      child_overrides =
        Some [''myfile'' \<mapsto> \<lparr>override_label = Some ''Custom'', override_description = None\<rparr>]\<rparr>"

definition sampleConfig :: Configuration where
  "sampleConfig =
     \<lparr>config_previewTitle = ''Preview'', config_previewDescription = ''A sample'',
      config_collections =
        [\<lparr>collection_label = ''Docs'', collection_children = [sampleChild]\<rparr>]\<rparr>"

definition sampleParse :: "string \<Rightarrow> Configuration option" where
  "sampleParse text = (if text = ''{ the sample configuration }'' then Some sampleConfig else None)"

definition sampleFs :: filesystem where
  "sampleFs =
     [[''srv'', ''site'', ''content''] \<mapsto> Directory [''manifest.config.json'', ''pages''],
      [''srv'', ''site'', ''content'', ''manifest.config.json'']
        \<mapsto> File ''{ the sample configuration }'',
      [''srv'', ''site'', ''content'', ''pages'']
        \<mapsto> Directory [''b.html'', ''myfile.html'', ''a.HTML'', ''notes.txt'', ''sub'', ''link.html''],
      [''srv'', ''site'', ''content'', ''pages'', ''b.html'']
        \<mapsto> File ''<h2>B &amp; b</h2><p>x <i>y</i></p>'',
      [''srv'', ''site'', ''content'', ''pages'', ''myfile.html'']
        \<mapsto> File ''<h2>Original</h2><p>Body</p>'',
      [''srv'', ''site'', ''content'', ''pages'', ''a.HTML''] \<mapsto> File ''<h1>Title</h1>'',
      [''srv'', ''site'', ''content'', ''pages'', ''notes.txt''] \<mapsto> File ''<h1>Notes</h1>'',
      [''srv'', ''site'', ''content'', ''pages'', ''sub''] \<mapsto> Directory [''deep.html''],
      [''srv'', ''site'', ''content'', ''pages'', ''sub'', ''deep.html''] \<mapsto> File ''<h1>Deep</h1>'',
      [''srv'', ''site'', ''content'', ''pages'', ''link.html''] \<mapsto> Other]"

definition sampleFsLater :: filesystem where
  \<comment> \<open>The sample site at a later time: an earlier manifest is in place and the text file
     has changed.\<close>
  "sampleFsLater =
     sampleFs
       ([''srv'', ''site'', ''content'']
          \<mapsto> Directory [''manifest.config.json'', ''pages'', ''manifest.json''],
        [''srv'', ''site'', ''content'', ''manifest.json''] \<mapsto> File ''{ an earlier manifest }'',
        [''srv'', ''site'', ''content'', ''pages'', ''notes.txt''] \<mapsto> File ''<h1>Other notes</h1>'')"

definition sampleManifest :: Manifest where
  \<comment> \<open>The manifest of the sample site.\<close>
  "sampleManifest =
     \<lparr>manifest_previewTitle = ''Preview'', manifest_previewDescription = ''A sample'',
      manifest_collections =
        [\<lparr>mcollection_label = ''Docs'',
          mcollection_children =
            [\<lparr>mchild_id = ''pages'', mchild_label = ''Pages'',
              mchild_description = ''All pages'',
              mchild_files =
                [\<lparr>file_id = ''myfile'', file_label = ''Custom'', file_description = ''Body'',
                  file_path = ''content/pages/myfile.html''\<rparr>,
                 \<lparr>file_id = ''a'', file_label = ''Title'', file_description = [],
                  file_path = ''content/pages/a.HTML''\<rparr>,
                 \<lparr>file_id = ''b'', file_label = ''B & b'', file_description = ''x y'',
                  file_path = ''content/pages/b.html''\<rparr>]\<rparr>]\<rparr>]\<rparr>"

section \<open>Properties\<close>

subsection \<open>Lists\<close>

lemma dropWhile_all: "\<forall>x\<in>set xs. P x \<Longrightarrow> dropWhile P (xs @ ys) = dropWhile P ys"
  by (induction xs) auto

lemma dropWhile_all_Nil: "\<forall>x\<in>set xs. P x \<Longrightarrow> dropWhile P xs = []"
  by (induction xs) auto

lemma takeWhile_all: "\<forall>x\<in>set xs. P x \<Longrightarrow> takeWhile P (xs @ ys) = xs @ takeWhile P ys"
  by (induction xs) auto

lemma dropWhile_some: "\<exists>x\<in>set xs. \<not> P x \<Longrightarrow> dropWhile P (xs @ ys) = dropWhile P xs @ ys"
  by (induction xs) auto

subsection \<open>The set of discovered names\<close>

lemma Set_new_Nil: "Set_new [] = []"
  by (simp add: Set_new_def)

lemma Set_new_snoc: "Set_new (xs @ [x]) = Set_add (Set_new xs) x"
  by (simp add: Set_new_def)

lemma set_Set_new: "set (Set_new xs) = set xs"
  by (induction xs rule: rev_induct) (auto simp: Set_new_snoc Set_add_def Set_new_def)

lemma distinct_Set_new: "distinct (Set_new xs)"
  by (induction xs rule: rev_induct) (auto simp: Set_new_snoc Set_add_def Set_new_def)

lemma Set_new_distinct: "distinct xs \<Longrightarrow> Set_new xs = xs"
  by (induction xs rule: rev_induct) (auto simp: Set_new_snoc Set_add_def Set_new_def set_Set_new)

lemma foldl_Set_add: "foldl Set_add acc xs = acc @ [x \<leftarrow> Set_new xs. x \<notin> set acc]"
proof (induction xs rule: rev_induct)
  case Nil
  then show ?case by (simp add: Set_new_def)
next
  case (snoc x xs)
  then show ?case by (auto simp: Set_new_snoc Set_add_def)
qed

lemma Set_new_Cons: "Set_new (x # xs) = x # [y \<leftarrow> Set_new xs. y \<noteq> x]"
  using foldl_Set_add [of "[x]" xs] by (simp add: Set_new_def Set_add_def)

lemma Set_new_removeAll: "Set_new (removeAll x xs) = removeAll x (Set_new xs)"
  by (induction xs rule: rev_induct) (auto simp: Set_new_snoc Set_add_def Set_new_def)

subsection \<open>The ordering loop\<close>

lemma orderLoop_eq:
  "orderLoop names (existing, ordered) =
     ([n \<leftarrow> existing. n \<notin> set names], ordered @ [n \<leftarrow> Set_new names. n \<in> set existing])"
proof (induction names arbitrary: existing ordered)
  case Nil
  then show ?case by (simp add: Set_new_def)
next
  case (Cons name rest)
  show ?case
  proof (cases "name \<in> set existing")
    case True
    then show ?thesis
      by (auto simp add: Cons Set_has_def Set_delete_def Set_new_Cons removeAll_filter_not_eq
          intro: filter_cong)
  next
    case False
    then have "[n \<leftarrow> Set_new rest. n \<noteq> name \<and> n \<in> set existing]
        = [n \<leftarrow> Set_new rest. n \<in> set existing]"
      by (auto intro: filter_cong)
    with False show ?thesis
      by (auto simp add: Cons Set_has_def Set_new_Cons intro: filter_cong)
  qed
qed

lemma orderFiles_Some:
  "orderFiles collate files (Some names) =
     [n \<leftarrow> Set_new names. n \<in> set files]
     @ sort_key collate [n \<leftarrow> Set_new files. n \<notin> set names]"
  by (simp add: orderFiles_def orderLoop_eq set_Set_new)

lemma orderFiles_None: "orderFiles collate files None = sort_key collate (Set_new files)"
  by (simp add: orderFiles_def)

lemma set_orderFiles: "set (orderFiles collate files fileOrder) = set files"
  by (cases fileOrder) (auto simp: orderFiles_Some orderFiles_None set_Set_new)

lemma orderFiles_removeAll:
  assumes "name \<notin> set files"
  shows "orderFiles collate files (Some (removeAll name names))
    = orderFiles collate files (Some names)"
proof -
  have "[n \<leftarrow> removeAll name (Set_new names). n \<in> set files]
      = [n \<leftarrow> Set_new names. n \<in> set files]"
    using assms by (auto simp: removeAll_filter_not_eq intro: filter_cong)
  moreover have "[n \<leftarrow> Set_new files. n \<notin> set (removeAll name names)]
      = [n \<leftarrow> Set_new files. n \<notin> set names]"
    using assms by (auto simp: set_Set_new intro: filter_cong)
  ultimately show ?thesis
    by (simp add: orderFiles_Some Set_new_removeAll)
qed

subsection \<open>The files of a child\<close>

lemma buildFileEntry_id_path:
  "buildFileEntry ROOT fs dir fileName overrides = Inr entry \<Longrightarrow>
   file_id entry = basename fileName (extname fileName)
   \<and> file_path entry = replaceAllLiteral [CHR 0x5C] ''/''
         (joinSegments (path_relative ROOT dir @ [fileName]))"
  by (auto simp: buildFileEntry_def Let_def split: sum.splits)

lemma buildFiles_names:
  "buildFiles ROOT fs dir overrides names = Inr entries \<Longrightarrow>
   map file_id entries = map (\<lambda>n. basename n (extname n)) names
   \<and> map file_path entries
       = map (\<lambda>n. replaceAllLiteral [CHR 0x5C] ''/'' (joinSegments (path_relative ROOT dir @ [n])))
           names"
proof (induction names arbitrary: entries)
  case Nil
  then show ?case by simp
next
  case (Cons n names)
  from Cons.prems obtain e es where e: "buildFileEntry ROOT fs dir n overrides = Inr e"
    and es: "buildFiles ROOT fs dir overrides names = Inr es" and eq: "entries = e # es"
    by (auto split: sum.splits)
  from buildFileEntry_id_path [OF e] Cons.IH [OF es] eq show ?case by simp
qed

lemma buildChild_ordered:
  assumes "buildChild collate ROOT fs child = Inr c"
  shows "\<exists>htmlFiles. listHtmlFiles fs (path_join ROOT (child_directory child)) = Inr htmlFiles
    \<and> buildFiles ROOT fs (path_join ROOT (child_directory child))
          (nullish (child_overrides child) (\<lambda>slug. None))
          (orderFiles collate htmlFiles (child_fileOrder child)) = Inr (mchild_files c)"
  using assms by (auto simp: buildChild_def Let_def split: sum.splits)

lemma buildChildren_all2:
  "buildChildren collate ROOT fs cs = Inr r \<Longrightarrow>
   list_all2 (\<lambda>child c. buildChild collate ROOT fs child = Inr c) cs r"
  by (induction cs arbitrary: r) (auto split: sum.splits)

lemma buildCollections_all2:
  "buildCollections collate ROOT fs cols = Inr r \<Longrightarrow>
   list_all2 (\<lambda>col mcol. buildChildren collate ROOT fs (collection_children col)
                = Inr (mcollection_children mcol)) cols r"
  by (induction cols arbitrary: r) (auto split: sum.splits)

lemma orderFiles_eq:
  "orderFiles collate files fileOrder =
     [n \<leftarrow> Set_new (case fileOrder of None \<Rightarrow> [] | Some names \<Rightarrow> names). n \<in> set files]
     @ sort_key collate
         [n \<leftarrow> Set_new files. n \<notin> set (case fileOrder of None \<Rightarrow> [] | Some names \<Rightarrow> names)]"
  by (cases fileOrder) (simp_all add: orderFiles_Some orderFiles_None Set_new_Nil)

lemma distinct_orderFiles: "distinct (orderFiles collate files fileOrder)"
  by (cases fileOrder)
     (auto simp: orderFiles_Some orderFiles_None distinct_Set_new set_Set_new)

lemma child_files_ordered:
  assumes "buildChild collate ROOT fs child = Inr c"
  shows "\<exists>htmlFiles listed names.
      listHtmlFiles fs (path_join ROOT (child_directory child)) = Inr htmlFiles
    \<and> listed = (case child_fileOrder child of None \<Rightarrow> [] | Some l \<Rightarrow> l)
    \<and> names = [n \<leftarrow> Set_new listed. n \<in> set htmlFiles]
              @ sort_key collate [n \<leftarrow> Set_new htmlFiles. n \<notin> set listed]
    \<and> sorted (map collate (sort_key collate [n \<leftarrow> Set_new htmlFiles. n \<notin> set listed]))
    \<and> distinct names \<and> set names = set htmlFiles
    \<and> map file_id (mchild_files c) = map (\<lambda>n. basename n (extname n)) names
    \<and> map file_path (mchild_files c)
        = map (\<lambda>n. replaceAllLiteral [CHR 0x5C] ''/''
                     (joinSegments (path_relative ROOT (path_join ROOT (child_directory child)) @ [n])))
            names"
proof -
  from buildChild_ordered [OF assms] obtain htmlFiles
    where l: "listHtmlFiles fs (path_join ROOT (child_directory child)) = Inr htmlFiles"
      and b: "buildFiles ROOT fs (path_join ROOT (child_directory child))
          (nullish (child_overrides child) (\<lambda>slug. None))
          (orderFiles collate htmlFiles (child_fileOrder child)) = Inr (mchild_files c)"
    by blast
  let ?listed = "case child_fileOrder child of None \<Rightarrow> [] | Some l \<Rightarrow> l"
  let ?names = "orderFiles collate htmlFiles (child_fileOrder child)"
  have f1: "?names = [n \<leftarrow> Set_new ?listed. n \<in> set htmlFiles]
      @ sort_key collate [n \<leftarrow> Set_new htmlFiles. n \<notin> set ?listed]"
    by (rule orderFiles_eq)
  have f2: "distinct ?names" by (rule distinct_orderFiles)
  have f3: "set ?names = set htmlFiles" by (rule set_orderFiles)
  note f4 = buildFiles_names [OF b]
  show ?thesis
    by (rule exI [of _ htmlFiles], rule exI [of _ ?listed], rule exI [of _ ?names])
       (intro conjI refl l f1 f2 f3 sorted_sort_key f4 [THEN conjunct1] f4 [THEN conjunct2])
qed

lemma manifest_children:
  assumes "buildManifest collate parse ROOT fs = Inr m"
  shows "\<exists>config. readConfig parse ROOT fs = Inr config
    \<and> list_all2 (\<lambda>col mcol. list_all2 (\<lambda>child c. buildChild collate ROOT fs child = Inr c)
          (collection_children col) (mcollection_children mcol))
        (config_collections config) (manifest_collections m)"
proof -
  from assms obtain config cols where c: "readConfig parse ROOT fs = Inr config"
    and b: "buildCollections collate ROOT fs (config_collections config) = Inr cols"
    and m: "manifest_collections m = cols"
    by (auto simp: buildManifest_def split: sum.splits)
  from buildCollections_all2 [OF b]
  have "list_all2 (\<lambda>col mcol. list_all2 (\<lambda>child c. buildChild collate ROOT fs child = Inr c)
          (collection_children col) (mcollection_children mcol))
        (config_collections config) cols"
    by (rule list_all2_mono) (rule buildChildren_all2)
  with c m show ?thesis by blast
qed

lemma buildChild_id: "buildChild collate ROOT fs child = Inr c \<Longrightarrow> mchild_id c = child_id child"
  by (auto simp: buildChild_def Let_def split: sum.splits)

text \<open>
  Claim C1, as amended. In the manifest every child stands for the configured child at
  its position, and its file entries are those of the following names, in this order:
  first the names of \<open>fileOrder\<close> that were discovered in the child's directory, in the
  order of \<open>fileOrder\<close> (a name listed twice counts where it is listed first); then
  every other discovered name, sorted ascending by the collation of \<open>localeCompare\<close>,
  names that collate equal staying in the order of the directory listing. Every
  discovered name occurs exactly once. The identifier and the path of an entry are
  those of its name. The same holds of \<open>orderFiles\<close> on any two lists. The collation is
  the host's; it is the lexicographic order of the names only on a host whose
  \<open>localeCompare\<close> compares code unit by code unit.
\<close>

theorem manifest_files_listed_then_collated:
  "(buildManifest collate parse ROOT fs = Inr m \<longrightarrow>
      (\<exists>config. readConfig parse ROOT fs = Inr config
        \<and> list_all2
            (\<lambda>col mcol. list_all2
              (\<lambda>child c.
                mchild_id c = child_id child
                \<and> (\<exists>htmlFiles listed names.
                      listHtmlFiles fs (path_join ROOT (child_directory child)) = Inr htmlFiles
                    \<and> listed = (case child_fileOrder child of None \<Rightarrow> [] | Some l \<Rightarrow> l)
                    \<and> names = [n \<leftarrow> Set_new listed. n \<in> set htmlFiles]
                              @ sort_key collate [n \<leftarrow> Set_new htmlFiles. n \<notin> set listed]
                    \<and> sorted (map collate
                         (sort_key collate [n \<leftarrow> Set_new htmlFiles. n \<notin> set listed]))
                    \<and> distinct names \<and> set names = set htmlFiles
                    \<and> map file_id (mchild_files c) = map (\<lambda>n. basename n (extname n)) names
                    \<and> map file_path (mchild_files c)
                        = map (\<lambda>n. replaceAllLiteral [CHR 0x5C] ''/''
                                     (joinSegments
                                        (path_relative ROOT
                                           (path_join ROOT (child_directory child)) @ [n])))
                            names))
              (collection_children col) (mcollection_children mcol))
            (config_collections config) (manifest_collections m)))
   \<and> orderFiles collate files fileOrder =
       [n \<leftarrow> Set_new (case fileOrder of None \<Rightarrow> [] | Some names \<Rightarrow> names). n \<in> set files]
       @ sort_key collate
           [n \<leftarrow> Set_new files. n \<notin> set (case fileOrder of None \<Rightarrow> [] | Some names \<Rightarrow> names)]
   \<and> sorted (map collate (sort_key collate
         [n \<leftarrow> Set_new files. n \<notin> set (case fileOrder of None \<Rightarrow> [] | Some names \<Rightarrow> names)]))
   \<and> distinct (orderFiles collate files fileOrder)
   \<and> set (orderFiles collate files fileOrder) = set files"
proof (intro conjI impI)
  assume b: "buildManifest collate parse ROOT fs = Inr m"
  from manifest_children [OF b] obtain config where c: "readConfig parse ROOT fs = Inr config"
    and a: "list_all2 (\<lambda>col mcol. list_all2 (\<lambda>child c. buildChild collate ROOT fs child = Inr c)
          (collection_children col) (mcollection_children mcol))
        (config_collections config) (manifest_collections m)"
    by blast
  have "list_all2
            (\<lambda>col mcol. list_all2
              (\<lambda>child c.
                mchild_id c = child_id child
                \<and> (\<exists>htmlFiles listed names.
                      listHtmlFiles fs (path_join ROOT (child_directory child)) = Inr htmlFiles
                    \<and> listed = (case child_fileOrder child of None \<Rightarrow> [] | Some l \<Rightarrow> l)
                    \<and> names = [n \<leftarrow> Set_new listed. n \<in> set htmlFiles]
                              @ sort_key collate [n \<leftarrow> Set_new htmlFiles. n \<notin> set listed]
                    \<and> sorted (map collate
                         (sort_key collate [n \<leftarrow> Set_new htmlFiles. n \<notin> set listed]))
                    \<and> distinct names \<and> set names = set htmlFiles
                    \<and> map file_id (mchild_files c) = map (\<lambda>n. basename n (extname n)) names
                    \<and> map file_path (mchild_files c)
                        = map (\<lambda>n. replaceAllLiteral [CHR 0x5C] ''/''
                                     (joinSegments
                                        (path_relative ROOT
                                           (path_join ROOT (child_directory child)) @ [n])))
                            names))
              (collection_children col) (mcollection_children mcol))
            (config_collections config) (manifest_collections m)"
    using a
  proof (rule list_all2_mono)
    fix col mcol
    assume "list_all2 (\<lambda>child c. buildChild collate ROOT fs child = Inr c)
          (collection_children col) (mcollection_children mcol)"
    then show "list_all2
              (\<lambda>child c.
                mchild_id c = child_id child
                \<and> (\<exists>htmlFiles listed names.
                      listHtmlFiles fs (path_join ROOT (child_directory child)) = Inr htmlFiles
                    \<and> listed = (case child_fileOrder child of None \<Rightarrow> [] | Some l \<Rightarrow> l)
                    \<and> names = [n \<leftarrow> Set_new listed. n \<in> set htmlFiles]
                              @ sort_key collate [n \<leftarrow> Set_new htmlFiles. n \<notin> set listed]
                    \<and> sorted (map collate
                         (sort_key collate [n \<leftarrow> Set_new htmlFiles. n \<notin> set listed]))
                    \<and> distinct names \<and> set names = set htmlFiles
                    \<and> map file_id (mchild_files c) = map (\<lambda>n. basename n (extname n)) names
                    \<and> map file_path (mchild_files c)
                        = map (\<lambda>n. replaceAllLiteral [CHR 0x5C] ''/''
                                     (joinSegments
                                        (path_relative ROOT
                                           (path_join ROOT (child_directory child)) @ [n])))
                            names))
              (collection_children col) (mcollection_children mcol)"
    proof (rule list_all2_mono)
      fix child c
      assume bc: "buildChild collate ROOT fs child = Inr c"
      from buildChild_id [OF bc] child_files_ordered [OF bc]
      show "mchild_id c = child_id child
                \<and> (\<exists>htmlFiles listed names.
                      listHtmlFiles fs (path_join ROOT (child_directory child)) = Inr htmlFiles
                    \<and> listed = (case child_fileOrder child of None \<Rightarrow> [] | Some l \<Rightarrow> l)
                    \<and> names = [n \<leftarrow> Set_new listed. n \<in> set htmlFiles]
                              @ sort_key collate [n \<leftarrow> Set_new htmlFiles. n \<notin> set listed]
                    \<and> sorted (map collate
                         (sort_key collate [n \<leftarrow> Set_new htmlFiles. n \<notin> set listed]))
                    \<and> distinct names \<and> set names = set htmlFiles
                    \<and> map file_id (mchild_files c) = map (\<lambda>n. basename n (extname n)) names
                    \<and> map file_path (mchild_files c)
                        = map (\<lambda>n. replaceAllLiteral [CHR 0x5C] ''/''
                                     (joinSegments
                                        (path_relative ROOT
                                           (path_join ROOT (child_directory child)) @ [n])))
                            names)"
        by (rule conjI)
    qed
  qed
  with c show "(\<exists>config. readConfig parse ROOT fs = Inr config
          \<and> list_all2
              (\<lambda>col mcol. list_all2
                (\<lambda>child c.
                  mchild_id c = child_id child
                  \<and> (\<exists>htmlFiles listed names.
                        listHtmlFiles fs (path_join ROOT (child_directory child)) = Inr htmlFiles
                      \<and> listed = (case child_fileOrder child of None \<Rightarrow> [] | Some l \<Rightarrow> l)
                      \<and> names = [n \<leftarrow> Set_new listed. n \<in> set htmlFiles]
                                @ sort_key collate [n \<leftarrow> Set_new htmlFiles. n \<notin> set listed]
                      \<and> sorted (map collate
                           (sort_key collate [n \<leftarrow> Set_new htmlFiles. n \<notin> set listed]))
                      \<and> distinct names \<and> set names = set htmlFiles
                      \<and> map file_id (mchild_files c) = map (\<lambda>n. basename n (extname n)) names
                      \<and> map file_path (mchild_files c)
                          = map (\<lambda>n. replaceAllLiteral [CHR 0x5C] ''/''
                                       (joinSegments
                                          (path_relative ROOT
                                             (path_join ROOT (child_directory child)) @ [n])))
                              names))
                (collection_children col) (mcollection_children mcol))
              (config_collections config) (manifest_collections m))"
    by blast
next
  show "orderFiles collate files fileOrder =
       [n \<leftarrow> Set_new (case fileOrder of None \<Rightarrow> [] | Some names \<Rightarrow> names). n \<in> set files]
       @ sort_key collate
           [n \<leftarrow> Set_new files. n \<notin> set (case fileOrder of None \<Rightarrow> [] | Some names \<Rightarrow> names)]"
    by (rule orderFiles_eq)
next
  show "sorted (map collate (sort_key collate
         [n \<leftarrow> Set_new files. n \<notin> set (case fileOrder of None \<Rightarrow> [] | Some names \<Rightarrow> names)]))"
    by (rule sorted_sort_key)
next
  show "distinct (orderFiles collate files fileOrder)" by (rule distinct_orderFiles)
next
  show "set (orderFiles collate files fileOrder) = set files" by (rule set_orderFiles)
qed

text \<open>
  On the sample site \<open>myfile.html\<close> is listed and comes first; \<open>a.HTML\<close> and \<open>b.html\<close>
  follow in the order of the collation, against the order of the directory listing.
\<close>

theorem manifest_files_listed_then_collated_witness:
  "buildManifest toLowerCase sampleParse sampleRoot sampleFs = Inr sampleManifest
   \<and> (\<exists>config. readConfig sampleParse sampleRoot sampleFs = Inr config
        \<and> list_all2
            (\<lambda>col mcol. list_all2
              (\<lambda>child c.
                mchild_id c = child_id child
                \<and> (\<exists>htmlFiles listed names.
                      listHtmlFiles sampleFs (path_join sampleRoot (child_directory child)) = Inr htmlFiles
                    \<and> listed = (case child_fileOrder child of None \<Rightarrow> [] | Some l \<Rightarrow> l)
                    \<and> names = [n \<leftarrow> Set_new listed. n \<in> set htmlFiles]
                              @ sort_key toLowerCase [n \<leftarrow> Set_new htmlFiles. n \<notin> set listed]
                    \<and> sorted (map toLowerCase
                         (sort_key toLowerCase [n \<leftarrow> Set_new htmlFiles. n \<notin> set listed]))
                    \<and> distinct names \<and> set names = set htmlFiles
                    \<and> map file_id (mchild_files c) = map (\<lambda>n. basename n (extname n)) names
                    \<and> map file_path (mchild_files c)
                        = map (\<lambda>n. replaceAllLiteral [CHR 0x5C] ''/''
                                     (joinSegments
                                        (path_relative sampleRoot
                                           (path_join sampleRoot (child_directory child)) @ [n])))
                            names))
              (collection_children col) (mcollection_children mcol))
            (config_collections config) (manifest_collections sampleManifest))
   \<and> map (\<lambda>mcol. map (\<lambda>c. map file_path (mchild_files c)) (mcollection_children mcol))
        (manifest_collections sampleManifest)
       = [[[''content/pages/myfile.html'', ''content/pages/a.HTML'', ''content/pages/b.html'']]]
   \<and> listHtmlFiles sampleFs (path_join sampleRoot (child_directory sampleChild))
       = Inr [''b.html'', ''myfile.html'', ''a.HTML'']"
proof -
  have h: "buildManifest toLowerCase sampleParse sampleRoot sampleFs = Inr sampleManifest"
    by code_simp
  have p: "map (\<lambda>mcol. map (\<lambda>c. map file_path (mchild_files c)) (mcollection_children mcol))
        (manifest_collections sampleManifest)
       = [[[''content/pages/myfile.html'', ''content/pages/a.HTML'', ''content/pages/b.html'']]]"
    by (simp add: sampleManifest_def)
  have l: "listHtmlFiles sampleFs (path_join sampleRoot (child_directory sampleChild))
       = Inr [''b.html'', ''myfile.html'', ''a.HTML'']"
    by code_simp
  from manifest_files_listed_then_collated
    [where collate = toLowerCase and parse = sampleParse and ROOT = sampleRoot
      and fs = sampleFs and m = sampleManifest, THEN conjunct1, THEN mp, OF h]
    h p l
  show ?thesis
    by (intro conjI)
qed

text \<open>
  Claim C1 as stated fails where the collation is not the lexicographic order. With a
  collation that ranks a capital with its small letter, as the Unicode collation behind
  \<open>localeCompare\<close> in Node.js does, \<open>a.html\<close> is put before \<open>B.html\<close>, while \<open>B\<close>
  precedes \<open>a\<close> lexicographically.
\<close>

theorem orderFiles_collation_not_lexicographic:
  "orderFiles toLowerCase [''B.html'', ''a.html''] None = [''a.html'', ''B.html'']
   \<and> \<not> sorted [''a.html'', ''B.html'']"
  by code_simp

text \<open>
  Claim C9. A name of \<open>fileOrder\<close> that is not among the discovered file names does not
  appear in the ordered list, and the child is built (or fails) exactly as it would
  without that name in \<open>fileOrder\<close>: the name causes no error.
\<close>

theorem fileOrder_name_not_discovered_is_omitted:
  assumes "listHtmlFiles fs (path_join ROOT (child_directory child)) = Inr htmlFiles"
    and "name \<notin> set htmlFiles"
    and "child_fileOrder child = Some names"
  shows "name \<notin> set (orderFiles collate htmlFiles (Some names))
    \<and> buildChild collate ROOT fs child
        = buildChild collate ROOT fs (child\<lparr>child_fileOrder := Some (removeAll name names)\<rparr>)"
proof -
  have same: "orderFiles collate htmlFiles (Some (removeAll name names))
      = orderFiles collate htmlFiles (Some names)"
    using assms(2) by (rule orderFiles_removeAll)
  have "name \<notin> set (orderFiles collate htmlFiles (Some names))"
    using assms(2) by (simp add: set_orderFiles)
  moreover have "buildChild collate ROOT fs child
      = buildChild collate ROOT fs (child\<lparr>child_fileOrder := Some (removeAll name names)\<rparr>)"
    by (cases "ensureDirectoryExists fs (path_join ROOT (child_directory child))")
       (simp_all add: buildChild_def Let_def assms(1,3) same split: sum.splits)
  ultimately show ?thesis by simp
qed

theorem fileOrder_name_not_discovered_is_omitted_witness:
  "listHtmlFiles sampleFs (path_join sampleRoot (child_directory sampleChild))
     = Inr [''b.html'', ''myfile.html'', ''a.HTML'']
   \<and> ''ghost.html'' \<notin> set [''b.html'', ''myfile.html'', ''a.HTML'']
   \<and> child_fileOrder sampleChild = Some [''myfile.html'', ''ghost.html'']
   \<and> ''ghost.html'' \<notin> set (orderFiles toLowerCase [''b.html'', ''myfile.html'', ''a.HTML'']
        (Some [''myfile.html'', ''ghost.html'']))
   \<and> buildChild toLowerCase sampleRoot sampleFs sampleChild
       = buildChild toLowerCase sampleRoot sampleFs
           (sampleChild\<lparr>child_fileOrder :=
              Some (removeAll ''ghost.html'' [''myfile.html'', ''ghost.html''])\<rparr>)"
proof -
  have h1: "listHtmlFiles sampleFs (path_join sampleRoot (child_directory sampleChild))
     = Inr [''b.html'', ''myfile.html'', ''a.HTML'']"
    by code_simp
  have h2: "''ghost.html'' \<notin> set [''b.html'', ''myfile.html'', ''a.HTML'']"
    by simp
  have h3: "child_fileOrder sampleChild = Some [''myfile.html'', ''ghost.html'']"
    by (simp add: sampleChild_def)
  from fileOrder_name_not_discovered_is_omitted [OF h1 h2 h3, of toLowerCase] h1 h2 h3
  show ?thesis
    by blast
qed

subsection \<open>File entries\<close>

lemma extractTextFromHtml_no_match:
  "matchFirst tagName html = None \<Longrightarrow> extractTextFromHtml html tagName = []"
  by (simp add: extractTextFromHtml_def)

lemma buildFileEntry_Inr:
  assumes "fs_readFile fs (dir @ [fileName]) = Inr raw"
  shows "buildFileEntry ROOT fs dir fileName overrides =
     Inr \<lparr>file_id = basename fileName (extname fileName),
          file_label =
            (case overrides (basename fileName (extname fileName)) of
               None \<Rightarrow> orElse (extractTextFromHtml raw ''h2'') (extractTextFromHtml raw ''h1'')
             | Some ov \<Rightarrow>
                 (case override_label ov of
                    None \<Rightarrow> orElse (extractTextFromHtml raw ''h2'') (extractTextFromHtml raw ''h1'')
                  | Some l \<Rightarrow> l)),
          file_description =
            (case overrides (basename fileName (extname fileName)) of
               None \<Rightarrow> extractTextFromHtml raw ''p''
             | Some ov \<Rightarrow>
                 (case override_description ov of
                    None \<Rightarrow> extractTextFromHtml raw ''p''
                  | Some d \<Rightarrow> d)),
          file_path = replaceAllLiteral [CHR 0x5C] ''/''
                        (joinSegments (path_relative ROOT dir @ [fileName]))\<rparr>"
  using assms by (simp add: buildFileEntry_def Let_def nullish_def split: option.splits)

lemma buildFileEntry_no_heading:
  assumes "fs_readFile fs (dir @ [fileName]) = Inr raw"
    and "overrides (basename fileName (extname fileName)) = None"
    and "matchFirst ''h2'' raw = None" and "matchFirst ''h1'' raw = None"
  shows "\<exists>entry. buildFileEntry ROOT fs dir fileName overrides = Inr entry
    \<and> file_label entry = []"
  using assms by (simp add: buildFileEntry_Inr orElse_def extractTextFromHtml_no_match)

text \<open>
  Claim C2 asks for the identifier as the label when neither an override nor a heading
  gives one. The script writes \<open>override.label ?? headingText ?? slug\<close>, and
  \<open>headingText\<close> is the empty string, not \<open>undefined\<close>, when no heading matches, so the
  last \<open>??\<close> never takes \<open>slug\<close>: the label of \<open>about.html\<close> without a heading is the
  empty string, not \<open>about\<close>.
\<close>

theorem buildFileEntry_no_heading_label_empty:
  "matchFirst ''h2'' ''<div>plain</div>'' = None \<and> matchFirst ''h1'' ''<div>plain</div>'' = None
   \<and> buildFileEntry [''srv'', ''site'']
        [[''srv'', ''site'', ''content'', ''about.html''] \<mapsto> File ''<div>plain</div>'']
        [''srv'', ''site'', ''content''] ''about.html'' (\<lambda>slug. None)
      = Inr \<lparr>file_id = ''about'', file_label = [], file_description = [],
             file_path = ''content/about.html''\<rparr>"
  by code_simp

lemma startsWithIgnoreCase_append:
  "map canonicalize p = map canonicalize q \<Longrightarrow> startsWithIgnoreCase (p @ s) q"
proof -
  assume a: "map canonicalize p = map canonicalize q"
  then have "length p = length q" by (rule map_eq_imp_length_eq)
  with a show ?thesis by (simp add: startsWithIgnoreCase_def)
qed

lemma lazyUntil_found:
  assumes "startsWithIgnoreCase z closePattern"
  shows "lazyUntil closePattern z = Some []"
  using assms by (cases z) simp_all

lemma lazyUntil_first:
  assumes "startsWithIgnoreCase z closePattern"
    and "\<forall>k<length body. \<not> startsWithIgnoreCase (drop k body @ z) closePattern"
  shows "lazyUntil closePattern (body @ z) = Some body"
  using assms(2)
proof (induction body)
  case Nil
  show ?case using assms(1) by (simp add: lazyUntil_found)
next
  case (Cons c body)
  from Cons.prems have 0: "\<not> startsWithIgnoreCase ((c # body) @ z) closePattern"
    by (metis drop0 length_greater_0_conv list.distinct(1))
  have "\<forall>k<length body. \<not> startsWithIgnoreCase (drop k body @ z) closePattern"
  proof (intro allI impI)
    fix k assume "k < length body"
    then have "Suc k < length (c # body)" by simp
    with Cons.prems have "\<not> startsWithIgnoreCase (drop (Suc k) (c # body) @ z) closePattern"
      by blast
    then show "\<not> startsWithIgnoreCase (drop k body @ z) closePattern" by simp
  qed
  with Cons.IH have "lazyUntil closePattern (body @ z) = Some body" by blast
  with 0 show ?case by simp
qed

lemma matchAt_no_open:
  "\<not> startsWithIgnoreCase s (CHR ''<'' # tagName) \<Longrightarrow> matchAt tagName s = None"
  by (simp add: matchAt_def)

lemma matchFirst_here: "matchAt tagName s = Some raw \<Longrightarrow> matchFirst tagName s = Some raw"
  by (cases s) simp_all

lemma matchFirst_skip:
  assumes "\<forall>k<length pre. \<not> startsWithIgnoreCase (drop k pre @ z) (CHR ''<'' # tagName)"
  shows "matchFirst tagName (pre @ z) = matchFirst tagName z"
  using assms
proof (induction pre)
  case Nil
  show ?case by simp
next
  case (Cons c pre)
  from Cons.prems have 0: "\<not> startsWithIgnoreCase ((c # pre) @ z) (CHR ''<'' # tagName)"
    by (metis drop0 length_greater_0_conv list.distinct(1))
  have "\<forall>k<length pre. \<not> startsWithIgnoreCase (drop k pre @ z) (CHR ''<'' # tagName)"
  proof (intro allI impI)
    fix k assume "k < length pre"
    then have "Suc k < length (c # pre)" by simp
    with Cons.prems
    have "\<not> startsWithIgnoreCase (drop (Suc k) (c # pre) @ z) (CHR ''<'' # tagName)"
      by blast
    then show "\<not> startsWithIgnoreCase (drop k pre @ z) (CHR ''<'' # tagName)" by simp
  qed
  with Cons.IH have "matchFirst tagName (pre @ z) = matchFirst tagName z" by blast
  moreover from 0 have "matchAt tagName (c # pre @ z) = None"
    by (simp add: matchAt_no_open)
  ultimately show ?case by simp
qed

lemma matchFirst_none:
  assumes "\<forall>k<length s. \<not> startsWithIgnoreCase (drop k s) (CHR ''<'' # tagName)"
  shows "matchFirst tagName s = None"
proof -
  have "matchFirst tagName (s @ []) = matchFirst tagName []"
    by (rule matchFirst_skip) (use assms in simp)
  then show ?thesis by (simp add: matchAt_def startsWithIgnoreCase_def)
qed

lemma matchAt_element:
  assumes "map canonicalize opening = map canonicalize (CHR ''<'' # tagName)"
    and "CHR ''>'' \<notin> set attrs"
    and "map canonicalize closing = map canonicalize (''</'' @ tagName @ ''>'')"
    and "\<forall>k<length body. \<not> startsWithIgnoreCase (drop k body @ closing @ rest)
            (''</'' @ tagName @ ''>'')"
  shows "matchAt tagName (opening @ attrs @ CHR ''>'' # body @ closing @ rest) = Some body"
proof -
  from assms(1) have len: "length opening = Suc (length tagName)"
    using map_eq_imp_length_eq by fastforce
  have op: "startsWithIgnoreCase (opening @ attrs @ CHR ''>'' # body @ closing @ rest)
      (CHR ''<'' # tagName)"
    using assms(1) by (rule startsWithIgnoreCase_append)
  have all: "\<forall>x\<in>set attrs. x \<noteq> CHR ''>''" using assms(2) by auto
  have dw: "dropWhile (\<lambda>d. d \<noteq> CHR ''>'') (attrs @ CHR ''>'' # body @ closing @ rest)
      = CHR ''>'' # body @ closing @ rest"
    using dropWhile_all [OF all, of "CHR ''>'' # body @ closing @ rest"] by simp
  have cl: "startsWithIgnoreCase (closing @ rest) (''</'' @ tagName @ ''>'')"
    using assms(3) by (rule startsWithIgnoreCase_append)
  have lz: "lazyUntil (''</'' @ tagName @ ''>'') (body @ closing @ rest) = Some body"
    using cl assms(4) by (rule lazyUntil_first)
  have dr: "drop (Suc (length tagName)) (opening @ attrs @ CHR ''>'' # body @ closing @ rest)
      = attrs @ CHR ''>'' # body @ closing @ rest"
    using len by simp
  show ?thesis
    unfolding matchAt_def using op by (simp only: if_True dr dw list.case lz)
qed

lemma matchFirst_element:
  assumes "map canonicalize opening = map canonicalize (CHR ''<'' # tagName)"
    and "CHR ''>'' \<notin> set attrs"
    and "map canonicalize closing = map canonicalize (''</'' @ tagName @ ''>'')"
    and "\<forall>k<length pre. \<not> startsWithIgnoreCase
            (drop k pre @ opening @ attrs @ CHR ''>'' # body @ closing @ rest) (CHR ''<'' # tagName)"
    and "\<forall>k<length body. \<not> startsWithIgnoreCase (drop k body @ closing @ rest)
            (''</'' @ tagName @ ''>'')"
  shows "matchFirst tagName (pre @ opening @ attrs @ CHR ''>'' # body @ closing @ rest) = Some body"
proof -
  have "matchFirst tagName (pre @ opening @ attrs @ CHR ''>'' # body @ closing @ rest)
      = matchFirst tagName (opening @ attrs @ CHR ''>'' # body @ closing @ rest)"
    using assms(4) by (rule matchFirst_skip)
  also have "\<dots> = Some body"
    using matchAt_element [OF assms(1,2,3,5)] by (rule matchFirst_here)
  finally show ?thesis .
qed

lemma all_less_upt: "(\<forall>k<n. P k) \<longleftrightarrow> (\<forall>k\<in>set [0..<n]. P k)"
  by auto

text \<open>
  Claim C5, as amended. A tag matches at its first element, whatever the case of its
  letters: when no opening tag starts before an element and no closing tag starts inside
  its body, the match is that body, whatever follows the element; and nothing
  matches in a text without an opening tag. Without an overrides entry for the file, the
  label is the text of the first \<open>h2\<close> match when that text is not empty, and otherwise
  (no \<open>h2\<close> matches, or the text of the first match is empty) the text of the first
  \<open>h1\<close> match; the description is the text of the first \<open>p\<close> match, the empty string
  when no \<open>p\<close> matches. A file that holds only \<open><h1>Title</h1>\<close> gets the label
  \<open>Title\<close> and an empty description.
\<close>

theorem buildFileEntry_heading_fallback:
  "(fs_readFile fs (dir @ [fileName]) = Inr raw
      \<and> overrides (basename fileName (extname fileName)) = None \<longrightarrow>
    (\<exists>entry. buildFileEntry ROOT fs dir fileName overrides = Inr entry
      \<and> file_label entry =
          (if extractTextFromHtml raw ''h2'' \<noteq> [] then extractTextFromHtml raw ''h2''
           else extractTextFromHtml raw ''h1'')
      \<and> (matchFirst ''h2'' raw = None \<longrightarrow> file_label entry = extractTextFromHtml raw ''h1'')
      \<and> file_description entry = extractTextFromHtml raw ''p''
      \<and> (matchFirst ''p'' raw = None \<longrightarrow> file_description entry = [])))
   \<and> (fs_readFile fs' (dir' @ [fileName']) = Inr ''<h1>Title</h1>''
      \<and> overrides' (basename fileName' (extname fileName')) = None \<longrightarrow>
    (\<exists>entry. buildFileEntry ROOT' fs' dir' fileName' overrides' = Inr entry
      \<and> file_label entry = ''Title'' \<and> file_description entry = []))
   \<and> (map canonicalize openTag = map canonicalize (CHR ''<'' # tagName)
      \<and> CHR ''>'' \<notin> set attrs
      \<and> map canonicalize closeTag = map canonicalize (''</'' @ tagName @ ''>'')
      \<and> (\<forall>k<length pre. \<not> startsWithIgnoreCase
             (drop k pre @ openTag @ attrs @ CHR ''>'' # body @ closeTag @ rest)
             (CHR ''<'' # tagName))
      \<and> (\<forall>k<length body. \<not> startsWithIgnoreCase (drop k body @ closeTag @ rest)
             (''</'' @ tagName @ ''>'')) \<longrightarrow>
    matchFirst tagName (pre @ openTag @ attrs @ CHR ''>'' # body @ closeTag @ rest) = Some body
    \<and> extractTextFromHtml (pre @ openTag @ attrs @ CHR ''>'' # body @ closeTag @ rest) tagName
        = decodeHtmlEntities (trim (collapseWhiteSpace (replaceTags body))))
   \<and> ((\<forall>k<length plain. \<not> startsWithIgnoreCase (drop k plain) (CHR ''<'' # tagName')) \<longrightarrow>
    matchFirst tagName' plain = None \<and> extractTextFromHtml plain tagName' = [])
   \<and> extractTextFromHtml ''<div><H2 class=x>Hi</H2><h2>B</h2>'' ''h2'' = ''Hi''"
proof -
  have e1: "extractTextFromHtml ''<h1>Title</h1>'' ''h2'' = []"
    and e2: "extractTextFromHtml ''<h1>Title</h1>'' ''h1'' = ''Title''"
    and e3: "extractTextFromHtml ''<h1>Title</h1>'' ''p'' = []"
    and e4: "extractTextFromHtml ''<div><H2 class=x>Hi</H2><h2>B</h2>'' ''h2'' = ''Hi''"
    by code_simp+
  have first: "matchFirst tagName (pre @ openTag @ attrs @ CHR ''>'' # body @ closeTag @ rest)
        = Some body
      \<and> extractTextFromHtml (pre @ openTag @ attrs @ CHR ''>'' # body @ closeTag @ rest) tagName
        = decodeHtmlEntities (trim (collapseWhiteSpace (replaceTags body)))"
    if "map canonicalize openTag = map canonicalize (CHR ''<'' # tagName)"
      "CHR ''>'' \<notin> set attrs"
      "map canonicalize closeTag = map canonicalize (''</'' @ tagName @ ''>'')"
      "\<forall>k<length pre. \<not> startsWithIgnoreCase
             (drop k pre @ openTag @ attrs @ CHR ''>'' # body @ closeTag @ rest)
             (CHR ''<'' # tagName)"
      "\<forall>k<length body. \<not> startsWithIgnoreCase (drop k body @ closeTag @ rest)
             (''</'' @ tagName @ ''>'')"
    using matchFirst_element [OF that] by (simp add: extractTextFromHtml_def)
  have none: "matchFirst tagName' plain = None \<and> extractTextFromHtml plain tagName' = []"
    if "\<forall>k<length plain. \<not> startsWithIgnoreCase (drop k plain) (CHR ''<'' # tagName')"
    using matchFirst_none [OF that] by (simp add: extractTextFromHtml_def)
  have entries: "(fs_readFile fs (dir @ [fileName]) = Inr raw
      \<and> overrides (basename fileName (extname fileName)) = None \<longrightarrow>
    (\<exists>entry. buildFileEntry ROOT fs dir fileName overrides = Inr entry
      \<and> file_label entry =
          (if extractTextFromHtml raw ''h2'' \<noteq> [] then extractTextFromHtml raw ''h2''
           else extractTextFromHtml raw ''h1'')
      \<and> (matchFirst ''h2'' raw = None \<longrightarrow> file_label entry = extractTextFromHtml raw ''h1'')
      \<and> file_description entry = extractTextFromHtml raw ''p''
      \<and> (matchFirst ''p'' raw = None \<longrightarrow> file_description entry = [])))
   \<and> (fs_readFile fs' (dir' @ [fileName']) = Inr ''<h1>Title</h1>''
      \<and> overrides' (basename fileName' (extname fileName')) = None \<longrightarrow>
    (\<exists>entry. buildFileEntry ROOT' fs' dir' fileName' overrides' = Inr entry
      \<and> file_label entry = ''Title'' \<and> file_description entry = []))"
    by (auto simp: buildFileEntry_Inr orElse_def extractTextFromHtml_no_match e1 e2 e3)
  from entries first none e4 show ?thesis
    by blast
qed

text \<open>
  The heading of the sample file \<open>a.HTML\<close>, and a text in which the first \<open>h2\<close> element
  stands after another tag, is written in capitals with an attribute, and is followed by
  a second \<open>h2\<close> element.
\<close>

theorem buildFileEntry_heading_fallback_witness:
  "fs_readFile sampleFs ([''srv'', ''site'', ''content'', ''pages''] @ [''a.HTML''])
     = Inr ''<h1>Title</h1>''
   \<and> [''myfile'' \<mapsto> \<lparr>override_label = Some ''Custom'', override_description = None\<rparr>]
        (basename ''a.HTML'' (extname ''a.HTML'')) = None
   \<and> matchFirst ''h2'' ''<h1>Title</h1>'' = None
   \<and> matchFirst ''p'' ''<h1>Title</h1>'' = None
   \<and> (\<exists>entry. buildFileEntry sampleRoot sampleFs [''srv'', ''site'', ''content'', ''pages'']
                  ''a.HTML''
                  [''myfile'' \<mapsto> \<lparr>override_label = Some ''Custom'', override_description = None\<rparr>]
                = Inr entry
          \<and> file_label entry = ''Title'' \<and> file_description entry = [])
   \<and> matchFirst ''h2''
        (''<div>'' @ ''<H2'' @ '' class=x'' @ CHR ''>'' # ''Hi'' @ ''</H2>'' @ ''<h2>B</h2>'')
       = Some ''Hi''
   \<and> extractTextFromHtml
        (''<div>'' @ ''<H2'' @ '' class=x'' @ CHR ''>'' # ''Hi'' @ ''</H2>'' @ ''<h2>B</h2>'') ''h2''
       = decodeHtmlEntities (trim (collapseWhiteSpace (replaceTags ''Hi'')))
   \<and> matchFirst ''h2'' ''<p>no heading</p>'' = None"
proof -
  have h1: "fs_readFile sampleFs ([''srv'', ''site'', ''content'', ''pages''] @ [''a.HTML''])
     = Inr ''<h1>Title</h1>''"
    by code_simp
  have h2: "[''myfile'' \<mapsto> \<lparr>override_label = Some ''Custom'', override_description = None\<rparr>]
        (basename ''a.HTML'' (extname ''a.HTML'')) = None"
    by code_simp
  have h3: "matchFirst ''h2'' ''<h1>Title</h1>'' = None"
    and h4: "matchFirst ''p'' ''<h1>Title</h1>'' = None"
    by code_simp+
  have h5: "map canonicalize ''<H2'' = map canonicalize (CHR ''<'' # ''h2'')"
    and h6: "CHR ''>'' \<notin> set '' class=x''"
    and h7: "map canonicalize ''</H2>'' = map canonicalize (''</'' @ ''h2'' @ ''>'')"
    by code_simp+
  have h8: "\<forall>k<length ''<div>''. \<not> startsWithIgnoreCase
      (drop k ''<div>'' @ ''<H2'' @ '' class=x'' @ CHR ''>'' # ''Hi'' @ ''</H2>'' @ ''<h2>B</h2>'')
      (CHR ''<'' # ''h2'')"
    unfolding all_less_upt by code_simp
  have h9: "\<forall>k<length ''Hi''. \<not> startsWithIgnoreCase (drop k ''Hi'' @ ''</H2>'' @ ''<h2>B</h2>'')
      (''</'' @ ''h2'' @ ''>'')"
    unfolding all_less_upt by code_simp
  have h10: "\<forall>k<length ''<p>no heading</p>''. \<not> startsWithIgnoreCase
      (drop k ''<p>no heading</p>'') (CHR ''<'' # ''h2'')"
    unfolding all_less_upt by code_simp
  from buildFileEntry_heading_fallback
    [where fs' = sampleFs and dir' = "[''srv'', ''site'', ''content'', ''pages'']"
      and fileName' = "''a.HTML''" and ROOT' = sampleRoot
      and overrides' = "[''myfile'' \<mapsto> \<lparr>override_label = Some ''Custom'', override_description = None\<rparr>]"
      and tagName = "''h2''" and pre = "''<div>''" and openTag = "''<H2''"
      and attrs = "'' class=x''" and body = "''Hi''" and closeTag = "''</H2>''"
      and rest = "''<h2>B</h2>''" and tagName' = "''h2''" and plain = "''<p>no heading</p>''"]
    h1 h2 h3 h4 h5 h6 h7 h8 h9 h10
  show ?thesis
    by blast
qed

text \<open>
  Claim C5 as stated fails: the \<open>h1\<close> match is used although an \<open>h2\<close> element matches,
  when the text of that \<open>h2\<close> element is empty (\<open>||\<close> takes the empty string for absent).
\<close>

theorem buildFileEntry_empty_h2_uses_h1:
  "matchFirst ''h2'' ''<h2></h2><h1>Title</h1>'' = Some []
   \<and> matchFirst ''h1'' ''<h2></h2><h1>Title</h1>'' = Some ''Title''
   \<and> buildFileEntry [''srv'', ''site'']
        [[''srv'', ''site'', ''content'', ''page.html''] \<mapsto> File ''<h2></h2><h1>Title</h1>'']
        [''srv'', ''site'', ''content''] ''page.html'' (\<lambda>slug. None)
      = Inr \<lparr>file_id = ''page'', file_label = ''Title'', file_description = [],
             file_path = ''content/page.html''\<rparr>"
  by code_simp

text \<open>
  Claim C6. When \<open>overrides\<close> has an entry for the file's identifier, a label or
  description that the entry supplies is the one of the file entry, and a field that the
  entry leaves out keeps the extracted text.
\<close>

theorem buildFileEntry_override_precedence:
  assumes "fs_readFile fs (dir @ [fileName]) = Inr raw"
    and "overrides (basename fileName (extname fileName)) = Some override"
  shows "\<exists>entry. buildFileEntry ROOT fs dir fileName overrides = Inr entry
    \<and> file_label entry =
        (case override_label override of
           Some l \<Rightarrow> l
         | None \<Rightarrow> orElse (extractTextFromHtml raw ''h2'') (extractTextFromHtml raw ''h1''))
    \<and> file_description entry =
        (case override_description override of
           Some d \<Rightarrow> d
         | None \<Rightarrow> extractTextFromHtml raw ''p'')"
  using assms by (simp add: buildFileEntry_Inr split: option.splits)

text \<open>
  The instance of the claim: the override \<open>{ "myfile": { "label": "Custom" } }\<close> on a file
  whose heading is \<open>Original\<close>.
\<close>

theorem buildFileEntry_override_precedence_witness:
  "fs_readFile sampleFs ([''srv'', ''site'', ''content'', ''pages''] @ [''myfile.html''])
     = Inr ''<h2>Original</h2><p>Body</p>''
   \<and> [''myfile'' \<mapsto> \<lparr>override_label = Some ''Custom'', override_description = None\<rparr>]
        (basename ''myfile.html'' (extname ''myfile.html''))
       = Some \<lparr>override_label = Some ''Custom'', override_description = None\<rparr>
   \<and> extractTextFromHtml ''<h2>Original</h2><p>Body</p>'' ''h2'' = ''Original''
   \<and> extractTextFromHtml ''<h2>Original</h2><p>Body</p>'' ''p'' = ''Body''
   \<and> (\<exists>entry. buildFileEntry sampleRoot sampleFs [''srv'', ''site'', ''content'', ''pages'']
                  ''myfile.html''
                  [''myfile'' \<mapsto> \<lparr>override_label = Some ''Custom'', override_description = None\<rparr>]
                = Inr entry
          \<and> file_label entry = ''Custom'' \<and> file_description entry = ''Body'')"
proof -
  have h1: "fs_readFile sampleFs ([''srv'', ''site'', ''content'', ''pages''] @ [''myfile.html''])
     = Inr ''<h2>Original</h2><p>Body</p>''"
    by code_simp
  have h2: "[''myfile'' \<mapsto> \<lparr>override_label = Some ''Custom'', override_description = None\<rparr>]
        (basename ''myfile.html'' (extname ''myfile.html''))
       = Some \<lparr>override_label = Some ''Custom'', override_description = None\<rparr>"
    by code_simp
  have h3: "extractTextFromHtml ''<h2>Original</h2><p>Body</p>'' ''h2'' = ''Original''"
    by code_simp
  have h4: "extractTextFromHtml ''<h2>Original</h2><p>Body</p>'' ''p'' = ''Body''"
    by code_simp
  from buildFileEntry_override_precedence
    [where fs = sampleFs and dir = "[''srv'', ''site'', ''content'', ''pages'']"
      and fileName = "''myfile.html''" and ROOT = sampleRoot
      and overrides = "[''myfile'' \<mapsto> \<lparr>override_label = Some ''Custom'', override_description = None\<rparr>]",
      OF h1 h2] h1 h2 h3 h4
  show ?thesis
    by simp
qed

subsection \<open>Directories\<close>

lemma ensureDirectoryExists_iff:
  "ensureDirectoryExists fs dir = Inr () \<longleftrightarrow> (\<exists>names. fs dir = Some (Directory names))"
  by (auto simp: ensureDirectoryExists_def fs_stat_def isDirectory_def
      split: option.splits node.splits error.splits sum.splits)

lemma listHtmlFiles_Directory:
  "fs dir = Some (Directory names) \<Longrightarrow>
   listHtmlFiles fs dir
     = Inr [n \<leftarrow> names. isFile (fs (dir @ [n])) \<and> endsWith (toLowerCase n) ''.html'']"
  by (simp add: listHtmlFiles_def fs_readdir_def filter_map comp_def)

lemma endsWith_iff: "endsWith s p \<longleftrightarrow> (\<exists>stem. s = stem @ p)"
proof
  assume "endsWith s p"
  then have "s = take (length s - length p) s @ p"
    by (metis append_take_drop_id endsWith_def)
  then show "\<exists>stem. s = stem @ p" ..
next
  assume "\<exists>stem. s = stem @ p"
  then show "endsWith s p" by (auto simp: endsWith_def)
qed

lemma isFile_iff: "isFile n \<longleftrightarrow> (\<exists>text. n = Some (File text))"
  by (auto simp: isFile_def split: option.splits node.splits)

text \<open>
  Claim C7. For a directory, \<open>listHtmlFiles\<close> returns, in the order of the listing, exactly
  the names of its own entries that are regular files and whose name in lower case ends
  in \<open>.html\<close>. An entry that is a directory or another kind of node, a name with another
  ending, and a file further down (which is no entry of this directory) are not
  returned.
\<close>

theorem listHtmlFiles_immediate_html_files:
  assumes "fs dir = Some (Directory names)"
  shows "\<exists>found. listHtmlFiles fs dir = Inr found
    \<and> found = [n \<leftarrow> names. isFile (fs (dir @ [n])) \<and> endsWith (toLowerCase n) ''.html'']
    \<and> (\<forall>n. n \<in> set found \<longleftrightarrow>
          n \<in> set names \<and> (\<exists>text. fs (dir @ [n]) = Some (File text))
          \<and> (\<exists>stem. toLowerCase n = stem @ ''.html''))"
  using assms by (auto simp: listHtmlFiles_Directory isFile_iff endsWith_iff)

text \<open>
  In the sample directory the text file, the subdirectory, the special node named
  \<open>link.html\<close> and the file \<open>sub/deep.html\<close> are left out.
\<close>

theorem listHtmlFiles_immediate_html_files_witness:
  "sampleFs [''srv'', ''site'', ''content'', ''pages'']
     = Some (Directory [''b.html'', ''myfile.html'', ''a.HTML'', ''notes.txt'', ''sub'', ''link.html''])
   \<and> listHtmlFiles sampleFs [''srv'', ''site'', ''content'', ''pages'']
       = Inr [''b.html'', ''myfile.html'', ''a.HTML'']
   \<and> sampleFs [''srv'', ''site'', ''content'', ''pages'', ''sub'', ''deep.html'']
       = Some (File ''<h1>Deep</h1>'')"
proof -
  have h: "sampleFs [''srv'', ''site'', ''content'', ''pages'']
     = Some (Directory [''b.html'', ''myfile.html'', ''a.HTML'', ''notes.txt'', ''sub'', ''link.html''])"
    by code_simp
  have f: "[n \<leftarrow> [''b.html'', ''myfile.html'', ''a.HTML'', ''notes.txt'', ''sub'', ''link.html''].
            isFile (sampleFs ([''srv'', ''site'', ''content'', ''pages''] @ [n]))
            \<and> endsWith (toLowerCase n) ''.html'']
       = [''b.html'', ''myfile.html'', ''a.HTML'']"
    by code_simp
  have d: "sampleFs [''srv'', ''site'', ''content'', ''pages'', ''sub'', ''deep.html'']
       = Some (File ''<h1>Deep</h1>'')"
    by code_simp
  from listHtmlFiles_immediate_html_files
    [where fs = sampleFs and dir = "[''srv'', ''site'', ''content'', ''pages'']", OF h] h f d
  show ?thesis
    by auto
qed

subsection \<open>A failed run\<close>

lemma buildChild_Inr:
  "buildChild collate ROOT fs child = Inr c \<Longrightarrow>
   ensureDirectoryExists fs (path_join ROOT (child_directory child)) = Inr ()"
  by (auto simp: buildChild_def Let_def split: sum.splits)

lemma buildChildren_Inr:
  "buildChildren collate ROOT fs cs = Inr r \<Longrightarrow> child \<in> set cs \<Longrightarrow>
   ensureDirectoryExists fs (path_join ROOT (child_directory child)) = Inr ()"
  by (induction cs arbitrary: r) (auto split: sum.splits dest: buildChild_Inr)

lemma buildCollections_Inr:
  "buildCollections collate ROOT fs cols = Inr r \<Longrightarrow> col \<in> set cols \<Longrightarrow>
   child \<in> set (collection_children col) \<Longrightarrow>
   ensureDirectoryExists fs (path_join ROOT (child_directory child)) = Inr ()"
  by (induction cols arbitrary: r) (auto split: sum.splits dest: buildChildren_Inr)

lemma buildManifest_Inr:
  "buildManifest collate parse ROOT fs = Inr m \<Longrightarrow> readConfig parse ROOT fs = Inr config \<Longrightarrow>
   col \<in> set (config_collections config) \<Longrightarrow> child \<in> set (collection_children col) \<Longrightarrow>
   ensureDirectoryExists fs (path_join ROOT (child_directory child)) = Inr ()"
  by (auto simp: buildManifest_def split: sum.splits dest: buildCollections_Inr)

lemma main_failed:
  "buildManifest collate parse ROOT fs = Inl e \<Longrightarrow>
   main collate parse ROOT fs
     = \<lparr>exitCode = 1, printedError = Some e, printedLog = None, fileSystem = fs\<rparr>"
  by (simp add: main_def)

text \<open>
  Claim C3. When the configuration has a child, in any collection, whose directory does
  not exist or is no directory, the run fails as a whole: the exit code is 1, an error is
  printed, and the file system after the run is the one before it, so the manifest file
  is neither written nor changed.
\<close>

theorem main_fails_without_writing:
  assumes "readConfig parse ROOT fs = Inr config"
    and "col \<in> set (config_collections config)"
    and "child \<in> set (collection_children col)"
    and "\<nexists>names. fs (path_join ROOT (child_directory child)) = Some (Directory names)"
  shows "exitCode (main collate parse ROOT fs) = 1
    \<and> printedError (main collate parse ROOT fs) \<noteq> None
    \<and> fileSystem (main collate parse ROOT fs) = fs"
proof (cases "buildManifest collate parse ROOT fs")
  case (Inl e)
  then show ?thesis by (simp add: main_failed)
next
  case (Inr m)
  from buildManifest_Inr [OF Inr assms(1,2,3)] assms(4) show ?thesis
    by (simp add: ensureDirectoryExists_iff)
qed

text \<open>The sample site with a regular file in the place of the directory \<open>content/pages\<close>.\<close>

theorem main_fails_without_writing_witness:
  "readConfig sampleParse sampleRoot
      (sampleFs([''srv'', ''site'', ''content'', ''pages''] \<mapsto> File ''not a directory''))
     = Inr sampleConfig
   \<and> \<lparr>collection_label = ''Docs'', collection_children = [sampleChild]\<rparr>
       \<in> set (config_collections sampleConfig)
   \<and> sampleChild \<in> set (collection_children
        \<lparr>collection_label = ''Docs'', collection_children = [sampleChild]\<rparr>)
   \<and> (\<nexists>names. (sampleFs([''srv'', ''site'', ''content'', ''pages''] \<mapsto> File ''not a directory''))
          (path_join sampleRoot (child_directory sampleChild)) = Some (Directory names))
   \<and> exitCode (main toLowerCase sampleParse sampleRoot
        (sampleFs([''srv'', ''site'', ''content'', ''pages''] \<mapsto> File ''not a directory''))) = 1
   \<and> printedError (main toLowerCase sampleParse sampleRoot
        (sampleFs([''srv'', ''site'', ''content'', ''pages''] \<mapsto> File ''not a directory''))) \<noteq> None
   \<and> fileSystem (main toLowerCase sampleParse sampleRoot
        (sampleFs([''srv'', ''site'', ''content'', ''pages''] \<mapsto> File ''not a directory'')))
       = sampleFs([''srv'', ''site'', ''content'', ''pages''] \<mapsto> File ''not a directory'')"
proof -
  have h1: "readConfig sampleParse sampleRoot
      (sampleFs([''srv'', ''site'', ''content'', ''pages''] \<mapsto> File ''not a directory''))
     = Inr sampleConfig"
    by (simp add: readConfig_def fs_readFile_def CONFIG_PATH_def sampleRoot_def sampleFs_def
        sampleParse_def)
  have h2: "\<lparr>collection_label = ''Docs'', collection_children = [sampleChild]\<rparr>
       \<in> set (config_collections sampleConfig)"
    by (simp add: sampleConfig_def)
  have h3: "sampleChild \<in> set (collection_children
        \<lparr>collection_label = ''Docs'', collection_children = [sampleChild]\<rparr>)"
    by simp
  have p: "path_join sampleRoot (child_directory sampleChild)
      = [''srv'', ''site'', ''content'', ''pages'']"
    by code_simp
  have h4: "\<nexists>names. (sampleFs([''srv'', ''site'', ''content'', ''pages''] \<mapsto> File ''not a directory''))
          (path_join sampleRoot (child_directory sampleChild)) = Some (Directory names)"
    by (simp add: p)
  from main_fails_without_writing
    [where fs = "sampleFs([''srv'', ''site'', ''content'', ''pages''] \<mapsto> File ''not a directory'')"
      and collate = toLowerCase, OF h1 h2 h3 h4] h1 h2 h3 h4
  show ?thesis
    by blast
qed

subsection \<open>The inputs of a run\<close>

lemma buildFileEntry_cong:
  "fs_readFile fs1 (dir @ [fileName]) = fs_readFile fs2 (dir @ [fileName]) \<Longrightarrow>
   buildFileEntry ROOT fs1 dir fileName overrides = buildFileEntry ROOT fs2 dir fileName overrides"
  by (simp add: buildFileEntry_def)

lemma buildFiles_cong:
  assumes "\<forall>name\<in>set names. fs_readFile fs1 (dir @ [name]) = fs_readFile fs2 (dir @ [name])"
  shows "buildFiles ROOT fs1 dir overrides names = buildFiles ROOT fs2 dir overrides names"
  using assms
proof (induction names)
  case Nil
  show ?case by simp
next
  case (Cons name rest)
  have a: "buildFileEntry ROOT fs1 dir name overrides = buildFileEntry ROOT fs2 dir name overrides"
    by (rule buildFileEntry_cong) (use Cons.prems in simp)
  have b: "buildFiles ROOT fs1 dir overrides rest = buildFiles ROOT fs2 dir overrides rest"
    by (rule Cons.IH) (use Cons.prems in simp)
  show ?case by (simp only: buildFiles.simps a b)
qed

lemma buildChild_cong:
  assumes "sameDirectory fs1 fs2 (path_join ROOT (child_directory child))"
  shows "buildChild collate ROOT fs1 child = buildChild collate ROOT fs2 child"
proof -
  let ?dir = "path_join ROOT (child_directory child)"
  from assms have ens: "ensureDirectoryExists fs1 ?dir = ensureDirectoryExists fs2 ?dir"
    and list: "listHtmlFiles fs1 ?dir = listHtmlFiles fs2 ?dir"
    by (simp_all add: sameDirectory_def)
  have files: "buildFiles ROOT fs1 ?dir ov (orderFiles collate names fo)
      = buildFiles ROOT fs2 ?dir ov (orderFiles collate names fo)"
    if "listHtmlFiles fs2 ?dir = Inr names" for names ov fo
  proof (rule buildFiles_cong)
    from assms that list
    show "\<forall>name\<in>set (orderFiles collate names fo).
        fs_readFile fs1 (?dir @ [name]) = fs_readFile fs2 (?dir @ [name])"
      by (simp add: sameDirectory_def set_orderFiles)
  qed
  show ?thesis
    unfolding buildChild_def Let_def ens list
    by (auto split: sum.splits simp: files)
qed

lemma buildChildren_cong:
  assumes "\<forall>child\<in>set cs. sameDirectory fs1 fs2 (path_join ROOT (child_directory child))"
  shows "buildChildren collate ROOT fs1 cs = buildChildren collate ROOT fs2 cs"
  using assms
proof (induction cs)
  case Nil
  show ?case by simp
next
  case (Cons child rest)
  have a: "buildChild collate ROOT fs1 child = buildChild collate ROOT fs2 child"
    by (rule buildChild_cong) (use Cons.prems in simp)
  have b: "buildChildren collate ROOT fs1 rest = buildChildren collate ROOT fs2 rest"
    by (rule Cons.IH) (use Cons.prems in simp)
  show ?case by (simp only: buildChildren.simps a b)
qed

lemma buildCollections_cong:
  assumes "\<forall>col\<in>set cols. \<forall>child\<in>set (collection_children col).
      sameDirectory fs1 fs2 (path_join ROOT (child_directory child))"
  shows "buildCollections collate ROOT fs1 cols = buildCollections collate ROOT fs2 cols"
  using assms
proof (induction cols)
  case Nil
  show ?case by simp
next
  case (Cons col rest)
  have a: "buildChildren collate ROOT fs1 (collection_children col)
      = buildChildren collate ROOT fs2 (collection_children col)"
    by (rule buildChildren_cong) (use Cons.prems in simp)
  have b: "buildCollections collate ROOT fs1 rest = buildCollections collate ROOT fs2 rest"
    by (rule Cons.IH) (use Cons.prems in simp)
  show ?case by (simp only: buildCollections.simps a b)
qed

lemma buildManifest_cong:
  assumes "sameInputs parse ROOT fs1 fs2"
  shows "buildManifest collate parse ROOT fs1 = buildManifest collate parse ROOT fs2"
proof (cases "readConfig parse ROOT fs1")
  case (Inl e)
  moreover from assms have "readConfig parse ROOT fs2 = readConfig parse ROOT fs1"
    by (simp add: sameInputs_def readConfig_def)
  ultimately show ?thesis by (simp add: buildManifest_def)
next
  case (Inr config)
  from assms have "readConfig parse ROOT fs2 = readConfig parse ROOT fs1"
    by (simp add: sameInputs_def readConfig_def)
  with Inr have rc2: "readConfig parse ROOT fs2 = Inr config" by simp
  from assms Inr have "\<forall>col\<in>set (config_collections config).
      \<forall>child\<in>set (collection_children col).
        sameDirectory fs1 fs2 (path_join ROOT (child_directory child))"
    by (simp add: sameInputs_def)
  then have "buildCollections collate ROOT fs1 (config_collections config)
      = buildCollections collate ROOT fs2 (config_collections config)"
    by (rule buildCollections_cong)
  then show ?thesis by (simp add: buildManifest_def Inr rc2)
qed

lemma not_html_manifest: "\<not> endsWith (toLowerCase ''manifest.json'') ''.html''"
  by code_simp

lemma writeFile_written: "fs_writeFile fs p text = Inr fs' \<Longrightarrow> fs' p = Some (File text)"
  by (auto simp: fs_writeFile_def split: option.splits node.splits if_splits)

lemma writeFile_no_directory:
  "fs_writeFile fs p text = Inr fs' \<Longrightarrow> fs p \<noteq> Some (Directory names)"
  by (auto simp: fs_writeFile_def split: option.splits node.splits if_splits)

lemma writeFile_elsewhere:
  "fs_writeFile fs p text = Inr fs' \<Longrightarrow> q \<noteq> p \<Longrightarrow> q \<noteq> butlast p \<Longrightarrow> fs' q = fs q"
  by (auto simp: fs_writeFile_def split: option.splits node.splits if_splits)

lemma butlast_neq: "p \<noteq> [] \<Longrightarrow> butlast p \<noteq> p"
  by (cases p rule: rev_cases) auto

lemma writeFile_parent:
  "fs_writeFile fs p text = Inr fs' \<Longrightarrow> p \<noteq> [] \<Longrightarrow>
   fs' (butlast p) = fs (butlast p)
   \<or> (\<exists>names. fs (butlast p) = Some (Directory names)
         \<and> fs' (butlast p) = Some (Directory (names @ [last p])))"
  using butlast_neq [of p]
  by (auto simp: fs_writeFile_def split: option.splits node.splits if_splits)

lemma writeFile_node:
  assumes "fs_writeFile fs p text = Inr fs'" and "q \<noteq> p" and "p \<noteq> []"
  shows "fs' q = fs q \<or> (\<exists>a b. fs q = Some (Directory a) \<and> fs' q = Some (Directory b))"
  using writeFile_elsewhere [OF assms(1), of q] writeFile_parent [OF assms(1,3)] assms(2)
  by (cases "q = butlast p") auto

lemma writeFile_directory:
  assumes "fs_writeFile fs p text = Inr fs'" and "fs dir = Some (Directory names)" and "p \<noteq> []"
  shows "fs' dir = Some (Directory names) \<or> fs' dir = Some (Directory (names @ [last p]))"
proof -
  have "dir \<noteq> p" using writeFile_no_directory [OF assms(1)] assms(2) by auto
  then show ?thesis
    using writeFile_elsewhere [OF assms(1), of dir] writeFile_parent [OF assms(1,3)] assms(2)
    by (cases "dir = butlast p") auto
qed

lemma last_OUTPUT_PATH: "last (OUTPUT_PATH ROOT) = ''manifest.json''"
  by (simp add: OUTPUT_PATH_def)

lemma OUTPUT_PATH_not_Nil: "OUTPUT_PATH ROOT \<noteq> []"
  by (simp add: OUTPUT_PATH_def)

lemma sameDirectory_after_write:
  assumes w: "fs_writeFile fs (OUTPUT_PATH ROOT) text = Inr fs'"
    and d: "fs dir = Some (Directory names)"
  shows "sameDirectory fs fs' dir"
proof -
  have html: "dir @ [n] \<noteq> OUTPUT_PATH ROOT" if "endsWith (toLowerCase n) ''.html''" for n
  proof
    assume "dir @ [n] = OUTPUT_PATH ROOT"
    then have "n = ''manifest.json''" by (simp add: OUTPUT_PATH_def)
    with that not_html_manifest show False by simp
  qed
  have node: "fs' (dir @ [n]) = fs (dir @ [n])
      \<or> (\<exists>a b. fs (dir @ [n]) = Some (Directory a) \<and> fs' (dir @ [n]) = Some (Directory b))"
    if "endsWith (toLowerCase n) ''.html''" for n
    using writeFile_node [OF w html [OF that] OUTPUT_PATH_not_Nil] .
  have pred: "(isFile (fs' (dir @ [n])) \<and> endsWith (toLowerCase n) ''.html'')
      = (isFile (fs (dir @ [n])) \<and> endsWith (toLowerCase n) ''.html'')" for n
    using node [of n] by (auto simp: isFile_def)
  have read: "fs_readFile fs' (dir @ [n]) = fs_readFile fs (dir @ [n])"
    if "endsWith (toLowerCase n) ''.html''" for n
    using node [OF that] by (auto simp: fs_readFile_def)
  from writeFile_directory [OF w d OUTPUT_PATH_not_Nil]
  have list: "listHtmlFiles fs' dir = listHtmlFiles fs dir"
    and ens: "ensureDirectoryExists fs' dir = Inr ()"
    using d not_html_manifest
    by (auto simp: listHtmlFiles_Directory pred last_OUTPUT_PATH ensureDirectoryExists_iff)
  have "ensureDirectoryExists fs dir = Inr ()"
    using d by (simp add: ensureDirectoryExists_iff)
  with list ens read d show ?thesis
    by (auto simp: sameDirectory_def listHtmlFiles_Directory)
qed

lemma CONFIG_after_write:
  assumes "fs_writeFile fs (OUTPUT_PATH ROOT) text = Inr fs'"
  shows "fs_readFile fs' (CONFIG_PATH ROOT) = fs_readFile fs (CONFIG_PATH ROOT)"
proof -
  have "CONFIG_PATH ROOT \<noteq> OUTPUT_PATH ROOT" "CONFIG_PATH ROOT \<noteq> butlast (OUTPUT_PATH ROOT)"
    by (simp_all add: CONFIG_PATH_def OUTPUT_PATH_def butlast_append)
  then have "fs' (CONFIG_PATH ROOT) = fs (CONFIG_PATH ROOT)"
    using writeFile_elsewhere [OF assms] by blast
  then show ?thesis by (simp add: fs_readFile_def)
qed

lemma sameInputs_after_write:
  assumes b: "buildManifest collate parse ROOT fs = Inr m"
    and w: "fs_writeFile fs (OUTPUT_PATH ROOT) text = Inr fs'"
  shows "sameInputs parse ROOT fs fs'"
proof -
  from b obtain config where c: "readConfig parse ROOT fs = Inr config"
    by (auto simp: buildManifest_def split: sum.splits)
  have "sameDirectory fs fs' (path_join ROOT (child_directory child))"
    if "col \<in> set (config_collections config)" "child \<in> set (collection_children col)"
    for col child
  proof -
    from buildManifest_Inr [OF b c that]
    obtain names where "fs (path_join ROOT (child_directory child)) = Some (Directory names)"
      by (auto simp: ensureDirectoryExists_iff)
    with w show ?thesis by (rule sameDirectory_after_write)
  qed
  with c CONFIG_after_write [OF w] show ?thesis
    by (simp add: sameInputs_def)
qed

lemma main_done:
  assumes "exitCode (main collate parse ROOT fs) = 0"
  obtains m fs' where "buildManifest collate parse ROOT fs = Inr m"
    and "fs_writeFile fs (OUTPUT_PATH ROOT) (payload m) = Inr fs'"
    and "main collate parse ROOT fs
      = \<lparr>exitCode = 0, printedError = None,
         printedLog = Some (''Generated manifest at ''
                            @ joinSegments (path_relative ROOT (OUTPUT_PATH ROOT))),
         fileSystem = fs'\<rparr>"
  using assms by (auto simp: main_def writeManifest_def split: sum.splits)

lemma main_rerun:
  assumes "exitCode (main collate parse ROOT fs) = 0"
  shows "main collate parse ROOT (fileSystem (main collate parse ROOT fs))
    = main collate parse ROOT fs"
proof -
  from assms obtain m fs' where b: "buildManifest collate parse ROOT fs = Inr m"
    and w: "fs_writeFile fs (OUTPUT_PATH ROOT) (payload m) = Inr fs'"
    and r: "main collate parse ROOT fs
      = \<lparr>exitCode = 0, printedError = None,
         printedLog = Some (''Generated manifest at ''
                            @ joinSegments (path_relative ROOT (OUTPUT_PATH ROOT))),
         fileSystem = fs'\<rparr>"
    by (rule main_done)
  have "buildManifest collate parse ROOT fs' = buildManifest collate parse ROOT fs"
    using buildManifest_cong [OF sameInputs_after_write [OF b w], of collate] by simp
  with b have b': "buildManifest collate parse ROOT fs' = Inr m" by simp
  have "fs' (OUTPUT_PATH ROOT) = Some (File (payload m))"
    using w by (rule writeFile_written)
  then have "fs_writeFile fs' (OUTPUT_PATH ROOT) (payload m) = Inr fs'"
    by (simp add: fs_writeFile_def fun_upd_idem)
  with b' have "main collate parse ROOT fs'
      = \<lparr>exitCode = 0, printedError = None,
         printedLog = Some (''Generated manifest at ''
                            @ joinSegments (path_relative ROOT (OUTPUT_PATH ROOT))),
         fileSystem = fs'\<rparr>"
    by (simp add: main_def writeManifest_def)
  with r show ?thesis by simp
qed

lemma main_same_output:
  assumes s: "sameInputs parse ROOT fs1 fs2"
    and e1: "exitCode (main collate parse ROOT fs1) = 0"
    and e2: "exitCode (main collate parse ROOT fs2) = 0"
  shows "fileSystem (main collate parse ROOT fs1) (OUTPUT_PATH ROOT)
    = fileSystem (main collate parse ROOT fs2) (OUTPUT_PATH ROOT)"
proof -
  from e1 obtain m1 fs1' where b1: "buildManifest collate parse ROOT fs1 = Inr m1"
    and w1: "fs_writeFile fs1 (OUTPUT_PATH ROOT) (payload m1) = Inr fs1'"
    and r1: "main collate parse ROOT fs1
      = \<lparr>exitCode = 0, printedError = None,
         printedLog = Some (''Generated manifest at ''
                            @ joinSegments (path_relative ROOT (OUTPUT_PATH ROOT))),
         fileSystem = fs1'\<rparr>"
    by (rule main_done)
  from e2 obtain m2 fs2' where b2: "buildManifest collate parse ROOT fs2 = Inr m2"
    and w2: "fs_writeFile fs2 (OUTPUT_PATH ROOT) (payload m2) = Inr fs2'"
    and r2: "main collate parse ROOT fs2
      = \<lparr>exitCode = 0, printedError = None,
         printedLog = Some (''Generated manifest at ''
                            @ joinSegments (path_relative ROOT (OUTPUT_PATH ROOT))),
         fileSystem = fs2'\<rparr>"
    by (rule main_done)
  from buildManifest_cong [OF s, of collate] b1 b2 have "m1 = m2" by simp
  with writeFile_written [OF w1] writeFile_written [OF w2] r1 r2 show ?thesis by simp
qed

text \<open>
  Claim C8. The manifest depends on the inputs only: on file systems with the same
  inputs \<open>buildManifest\<close> returns the same manifest or the same error, and two
  successful runs leave the same text in the manifest file. In particular a second run
  in the file system that a successful run left behind ends as the first did and leaves
  the file system, and so the manifest file, as it was. (The collation of the host and
  \<open>JSON.parse\<close> are the same functions in both runs.)
\<close>

theorem rerun_same_manifest:
  "(sameInputs parse ROOT fs1 fs2 \<longrightarrow>
      buildManifest collate parse ROOT fs1 = buildManifest collate parse ROOT fs2
      \<and> (exitCode (main collate parse ROOT fs1) = 0 \<and> exitCode (main collate parse ROOT fs2) = 0 \<longrightarrow>
           fileSystem (main collate parse ROOT fs1) (OUTPUT_PATH ROOT)
             = fileSystem (main collate parse ROOT fs2) (OUTPUT_PATH ROOT)))
   \<and> (exitCode (main collate parse ROOT fs) = 0 \<longrightarrow>
        main collate parse ROOT (fileSystem (main collate parse ROOT fs))
          = main collate parse ROOT fs)"
proof (intro conjI impI)
  assume "sameInputs parse ROOT fs1 fs2"
  then show "buildManifest collate parse ROOT fs1 = buildManifest collate parse ROOT fs2"
    by (rule buildManifest_cong)
next
  assume s: "sameInputs parse ROOT fs1 fs2"
    and e: "exitCode (main collate parse ROOT fs1) = 0 \<and> exitCode (main collate parse ROOT fs2) = 0"
  from s e show "fileSystem (main collate parse ROOT fs1) (OUTPUT_PATH ROOT)
      = fileSystem (main collate parse ROOT fs2) (OUTPUT_PATH ROOT)"
    using main_same_output [of parse ROOT fs1 fs2 collate] by simp
next
  assume "exitCode (main collate parse ROOT fs) = 0"
  then show "main collate parse ROOT (fileSystem (main collate parse ROOT fs))
      = main collate parse ROOT fs"
    by (rule main_rerun)
qed


text \<open>
  The sample site and its later state have the same inputs although the earlier manifest
  and the text file differ.
\<close>

theorem rerun_same_manifest_witness:
  "sameInputs sampleParse sampleRoot sampleFs sampleFsLater
   \<and> exitCode (main toLowerCase sampleParse sampleRoot sampleFs) = 0
   \<and> exitCode (main toLowerCase sampleParse sampleRoot sampleFsLater) = 0
   \<and> sampleFs (OUTPUT_PATH sampleRoot) \<noteq> sampleFsLater (OUTPUT_PATH sampleRoot)
   \<and> buildManifest toLowerCase sampleParse sampleRoot sampleFs
       = buildManifest toLowerCase sampleParse sampleRoot sampleFsLater
   \<and> fileSystem (main toLowerCase sampleParse sampleRoot sampleFs) (OUTPUT_PATH sampleRoot)
       = fileSystem (main toLowerCase sampleParse sampleRoot sampleFsLater) (OUTPUT_PATH sampleRoot)
   \<and> main toLowerCase sampleParse sampleRoot
         (fileSystem (main toLowerCase sampleParse sampleRoot sampleFs))
       = main toLowerCase sampleParse sampleRoot sampleFs"
proof -
  have s: "sameInputs sampleParse sampleRoot sampleFs sampleFsLater"
    by code_simp
  have e1: "exitCode (main toLowerCase sampleParse sampleRoot sampleFs) = 0"
    by code_simp
  have e2: "exitCode (main toLowerCase sampleParse sampleRoot sampleFsLater) = 0"
    by code_simp
  have d: "sampleFs (OUTPUT_PATH sampleRoot) \<noteq> sampleFsLater (OUTPUT_PATH sampleRoot)"
    by code_simp
  from rerun_same_manifest
    [where parse = sampleParse and ROOT = sampleRoot and collate = toLowerCase
      and ?fs1.0 = sampleFs and ?fs2.0 = sampleFsLater and fs = sampleFs]
    s e1 e2 d
  show ?thesis
    by blast
qed

subsection \<open>Text extraction\<close>

lemma replaceTags_tag:
  assumes "CHR ''<'' \<notin> set a" "t \<noteq> []" "CHR ''>'' \<notin> set t"
  shows "replaceTags (a @ CHR ''<'' # t @ CHR ''>'' # b) = a @ CHR '' '' # replaceTags b"
  using assms
proof (induction a)
  case Nil
  have all: "\<forall>x\<in>set t. x \<noteq> CHR ''>''"
    using Nil by auto
  have "takeWhile (\<lambda>d. d \<noteq> CHR ''>'') (t @ CHR ''>'' # b) = t"
    using takeWhile_all [OF all, of "CHR ''>'' # b"] by simp
  moreover have "dropWhile (\<lambda>d. d \<noteq> CHR ''>'') (t @ CHR ''>'' # b) = CHR ''>'' # b"
    using dropWhile_all [OF all, of "CHR ''>'' # b"] by simp
  ultimately show ?case using Nil by simp
next
  case (Cons c a)
  then show ?case by auto
qed

lemma collapseWhiteSpace_append:
  "a = [] \<or> \<not> isWhiteSpace (last a) \<Longrightarrow>
   collapseWhiteSpace (a @ r) = collapseWhiteSpace a @ collapseWhiteSpace r"
proof (induction a rule: collapseWhiteSpace.induct)
  case 1
  then show ?case by simp
next
  case (2 c cs)
  show ?case
  proof (cases "isWhiteSpace c")
    case True
    with 2(3) have ne: "cs \<noteq> []" and l: "\<not> isWhiteSpace (last cs)"
      by (auto split: if_splits)
    then have ex: "\<exists>x\<in>set cs. \<not> isWhiteSpace x" using last_in_set by blast
    then have dw: "dropWhile isWhiteSpace (cs @ r) = dropWhile isWhiteSpace cs @ r"
      by (rule dropWhile_some)
    from ex have dne: "dropWhile isWhiteSpace cs \<noteq> []" by (simp add: dropWhile_eq_Nil_conv)
    have "last (dropWhile isWhiteSpace cs) = last cs"
      using dne by (metis last_appendR takeWhile_dropWhile_id)
    with l dne have "collapseWhiteSpace (dropWhile isWhiteSpace cs @ r)
        = collapseWhiteSpace (dropWhile isWhiteSpace cs) @ collapseWhiteSpace r"
      using 2(1) True by simp
    with True dw show ?thesis by simp
  next
    case False
    with 2(2,3) show ?thesis by (cases "cs = []") auto
  qed
qed

lemma collapseWhiteSpace_run:
  assumes "w \<noteq> []" "\<forall>c\<in>set w. isWhiteSpace c" "b = [] \<or> \<not> isWhiteSpace (hd b)"
  shows "collapseWhiteSpace (w @ b) = CHR '' '' # collapseWhiteSpace b"
proof -
  obtain c w' where w: "w = c # w'" using assms(1) by (cases w) auto
  have "dropWhile isWhiteSpace (w' @ b) = dropWhile isWhiteSpace b"
    using assms(2) w by (simp add: dropWhile_all)
  also have "\<dots> = b" using assms(3) by (cases b) auto
  finally show ?thesis using w assms(2) by simp
qed

lemma trim_core:
  assumes "\<forall>c\<in>set w1. isWhiteSpace c" "\<forall>c\<in>set w2. isWhiteSpace c"
    "m = [] \<or> (\<not> isWhiteSpace (hd m) \<and> \<not> isWhiteSpace (last m))"
  shows "trim (w1 @ m @ w2) = m"
proof (cases "m = []")
  case True
  have "\<forall>c\<in>set (w1 @ m @ w2). isWhiteSpace c"
    using True assms(1,2) by auto
  then have "dropWhile isWhiteSpace (w1 @ m @ w2) = []"
    by (rule dropWhile_all_Nil)
  then have "trim (w1 @ m @ w2) = []"
    by (simp only: trim_def rev.simps dropWhile.simps)
  with True show ?thesis by simp
next
  case False
  with assms(3) have h: "\<not> isWhiteSpace (hd m)" and l: "\<not> isWhiteSpace (last m)" by auto
  have "dropWhile isWhiteSpace (w1 @ m @ w2) = dropWhile isWhiteSpace (m @ w2)"
    using assms(1) by (simp add: dropWhile_all)
  also have "\<dots> = m @ w2" using False h by (cases m) auto
  finally have a: "dropWhile isWhiteSpace (w1 @ m @ w2) = m @ w2" .
  have "dropWhile isWhiteSpace (rev w2 @ rev m) = dropWhile isWhiteSpace (rev m)"
    using assms(2) by (simp add: dropWhile_all)
  also have "\<dots> = rev m" using False l by (cases "rev m") (auto simp: last_rev hd_rev)
  finally show ?thesis using a by (simp add: trim_def)
qed

lemma replaceAllLiteral_plain:
  "pat \<noteq> [] \<Longrightarrow> hd pat \<notin> set s \<Longrightarrow> replaceAllLiteral pat rep s = s"
  by (induction s) (auto simp: startsWith_def, (cases pat; simp)+)

lemma decodeHtmlEntities_plain: "CHR ''&'' \<notin> set s \<Longrightarrow> decodeHtmlEntities s = s"
  by (simp add: decodeHtmlEntities_def replaceAllLiteral_plain)

lemma startsWith_Nil: "startsWith s []"
  by (simp add: startsWith_def)

lemma startsWith_Nil_Cons: "\<not> startsWith [] (d # q)"
  by (simp add: startsWith_def)

lemma startsWith_Cons: "startsWith (c # s) (d # q) \<longleftrightarrow> c = d \<and> startsWith s q"
  by (simp add: startsWith_def)

lemma startsWith_append: "startsWith (p @ s) p"
  by (simp add: startsWith_def)

lemma startsWith_length:
  assumes "startsWith s p"
  shows "length p \<le> length s"
proof -
  from assms have "length (take (length p) s) = length p" by (simp add: startsWith_def)
  then show ?thesis by simp
qed

lemma startsWith_replaceAllLiteral:
  assumes "pat \<noteq> []" "hd pat \<notin> set q" "rep \<noteq> []" "hd rep \<notin> set q"
  shows "startsWith (replaceAllLiteral pat rep s) q \<longleftrightarrow> startsWith s q"
  using assms(2,4)
proof (induction q arbitrary: s)
  case Nil
  show ?case by (simp add: startsWith_Nil)
next
  case (Cons a q)
  show ?case
  proof (cases s)
    case Nil
    then show ?thesis by (simp add: startsWith_Nil_Cons)
  next
    case (Cons c cs)
    show ?thesis
    proof (cases "startsWith (c # cs) pat")
      case True
      with assms(1) have "c = hd pat" by (cases pat) (auto simp: startsWith_Cons)
      with Cons.prems have "c \<noteq> a" by auto
      moreover have "hd rep \<noteq> a" using Cons.prems by auto
      ultimately show ?thesis
        using True assms(1,3) Cons by (cases rep) (auto simp: startsWith_Cons)
    next
      case False
      with Cons.IH [of cs] Cons.prems Cons show ?thesis
        by (auto simp: startsWith_Cons)
    qed
  qed
qed

lemma replaceAllLiteral_append:
  assumes "s = [] \<or> hd s \<notin> set (tl pat)"
  shows "replaceAllLiteral pat rep (pre @ s)
    = replaceAllLiteral pat rep pre @ replaceAllLiteral pat rep s"
  using assms
proof (induction pat rep pre rule: replaceAllLiteral.induct)
  case (1 pat rep)
  show ?case by simp
next
  case (2 pat rep c cs)
  have fit: "length pat \<le> length (c # cs)" if "startsWith ((c # cs) @ s) pat"
  proof (rule ccontr)
    assume "\<not> length pat \<le> length (c # cs)"
    then have l: "length (c # cs) < length pat" by simp
    from that have t: "take (length pat) ((c # cs) @ s) = pat" by (simp add: startsWith_def)
    then have "length (take (length pat) ((c # cs) @ s)) = length pat" by simp
    then have "length pat \<le> length ((c # cs) @ s)" by simp
    with l have "s \<noteq> []" by auto
    from t have "pat ! length (c # cs) = ((c # cs) @ s) ! length (c # cs)"
      using l by (metis nth_take)
    also have "\<dots> = hd s" using \<open>s \<noteq> []\<close> by (simp add: nth_append hd_conv_nth)
    finally have "pat ! length (c # cs) = hd s" .
    moreover have "pat ! length (c # cs) \<in> set (tl pat)"
      using l by (cases pat) auto
    ultimately show False using 2(3) \<open>s \<noteq> []\<close> by auto
  qed
  have eq: "startsWith ((c # cs) @ s) pat \<longleftrightarrow> startsWith (c # cs) pat"
  proof
    assume a: "startsWith ((c # cs) @ s) pat"
    from fit [OF a]
    have "take (length pat) ((c # cs) @ s) = take (length pat) (c # cs)"
      by (simp del: append.simps)
    with a show "startsWith (c # cs) pat" by (simp only: startsWith_def)
  next
    assume a: "startsWith (c # cs) pat"
    from startsWith_length [OF a]
    have "take (length pat) ((c # cs) @ s) = take (length pat) (c # cs)"
      by (simp del: append.simps)
    with a show "startsWith ((c # cs) @ s) pat" by (simp only: startsWith_def)
  qed
  show ?case
  proof (cases "pat \<noteq> [] \<and> startsWith (c # cs) pat")
    case True
    then have len: "length pat \<le> length (c # cs)" using startsWith_length by blast
    then have d: "drop (length pat) ((c # cs) @ s) = drop (length pat) (c # cs) @ s"
      by (simp del: append.simps)
    from True eq have m: "pat \<noteq> [] \<and> startsWith ((c # cs) @ s) pat" by simp
    have e: "(c # cs) @ s = c # (cs @ s)" by simp
    have "replaceAllLiteral pat rep (c # (cs @ s))
        = rep @ replaceAllLiteral pat rep (drop (length pat) (c # (cs @ s)))"
      using m [unfolded e] by (simp only: replaceAllLiteral.simps if_True simp_thms)
    then have "replaceAllLiteral pat rep ((c # cs) @ s)
        = rep @ replaceAllLiteral pat rep (drop (length pat) ((c # cs) @ s))"
      by (simp only: e)
    also have "\<dots> = rep @ replaceAllLiteral pat rep (drop (length pat) (c # cs))
        @ replaceAllLiteral pat rep s"
      using 2(1) [OF True 2(3)] d by simp
    finally show ?thesis using True by simp
  next
    case False
    with eq 2(2,3) show ?thesis by auto
  qed
qed


lemma decode_Nil: "decodeHtmlEntities [] = []"
  by (simp add: decodeHtmlEntities_def)

lemma decode_plain_char: "c \<noteq> CHR ''&'' \<Longrightarrow> decodeHtmlEntities (c # rest) = c # decodeHtmlEntities rest"
  by (simp add: decodeHtmlEntities_def startsWith_Cons)

lemma decode_reference:
  "er \<in> set entities \<Longrightarrow> fst er \<noteq> ''&amp;'' \<Longrightarrow>
   decodeHtmlEntities (fst er @ rest) = snd er @ decodeHtmlEntities rest"
  by (auto simp: entities_def decodeHtmlEntities_def startsWith_Cons startsWith_Nil)

lemma decode_double:
  "er \<in> set entities \<Longrightarrow> fst er \<noteq> ''&amp;'' \<Longrightarrow>
   decodeHtmlEntities (pre @ ''&amp;'' @ tl (fst er) @ rest)
     = decodeHtmlEntities pre @ snd er @ decodeHtmlEntities rest"
  by (auto simp: entities_def decodeHtmlEntities_def startsWith_Cons startsWith_Nil
      replaceAllLiteral_append)

lemma decode_amp:
  assumes "\<forall>er\<in>set entities. fst er \<noteq> ''&amp;'' \<longrightarrow> \<not> startsWith (CHR ''&'' # rest) (fst er)"
  shows "decodeHtmlEntities (''&amp;'' @ rest) = ''&'' @ decodeHtmlEntities rest"
  using assms
  by (simp add: entities_def decodeHtmlEntities_def startsWith_Cons startsWith_Nil
      startsWith_replaceAllLiteral)

lemma decode_other_amp:
  assumes "\<forall>er\<in>set entities. \<not> startsWith (CHR ''&'' # rest) (fst er)"
  shows "decodeHtmlEntities (CHR ''&'' # rest) = CHR ''&'' # decodeHtmlEntities rest"
  using assms
  by (simp add: entities_def decodeHtmlEntities_def startsWith_Cons startsWith_Nil
      startsWith_replaceAllLiteral)

lemma replaceTags_prefix: "CHR ''<'' \<notin> set a \<Longrightarrow> replaceTags (a @ s) = a @ replaceTags s"
  by (induction a) auto

lemma replaceTags_no_close: "CHR ''>'' \<notin> set s \<Longrightarrow> replaceTags s = s"
proof (induction s)
  case Nil
  show ?case by simp
next
  case (Cons c cs)
  then have "\<forall>x\<in>set cs. x \<noteq> CHR ''>''" by auto
  then have "dropWhile (\<lambda>d. d \<noteq> CHR ''>'') cs = []" by (rule dropWhile_all_Nil)
  with Cons show ?case by simp
qed

lemma replaceTags_unclosed:
  "CHR ''<'' \<notin> set a \<Longrightarrow> CHR ''>'' \<notin> set t \<Longrightarrow> replaceTags (a @ CHR ''<'' # t) = a @ CHR ''<'' # t"
  using replaceTags_no_close [of "CHR ''<'' # t"] by (simp add: replaceTags_prefix)

lemma replaceTags_empty_tag:
  "CHR ''<'' \<notin> set a \<Longrightarrow>
   replaceTags (a @ CHR ''<'' # CHR ''>'' # b) = a @ CHR ''<'' # CHR ''>'' # replaceTags b"
  by (simp add: replaceTags_prefix)

lemma collapseWhiteSpace_plain: "\<forall>c\<in>set p. \<not> isWhiteSpace c \<Longrightarrow> collapseWhiteSpace p = p"
  by (induction p) auto

text \<open>
  Claim C4, as amended. The text between the matched tags is post-processed in four
  steps: every remaining inline tag (a \<open><\<close>, one or more characters other than \<open>>\<close>,
  and a \<open>>\<close>) is replaced by one space, so that the texts on its two sides are
  separated by a space in the result, while a \<open><\<close> that starts no tag stays; every run
  of white space becomes one space and other text stays; white space at both ends is
  stripped; and exactly the six character references are decoded.
  The decoding is stated for every text, by what stands at its front: a character
  other than \<open>&\<close> is kept; one of the references \<open>&lt;\<close>, \<open>&gt;\<close>, \<open>&quot;\<close>,
  \<open>&#39;\<close>, \<open>&#96;\<close> becomes its character; \<open>&amp;\<close> becomes \<open>&\<close>, and when the rest
  of one of the other five references follows, the two together become that reference's
  character; any other \<open>&\<close> is kept; and the rest of the text is decoded in the same
  way. The fragment of the specification yields the label \<open>Hello & World\<close> and the
  description \<open>A bold test.\<close>
\<close>

theorem extractTextFromHtml_post_processing:
  "(matchFirst tagName html = Some raw \<longrightarrow>
      extractTextFromHtml html tagName
        = decodeHtmlEntities (trim (collapseWhiteSpace (replaceTags raw))))
   \<and> (CHR ''<'' \<notin> set a \<and> t \<noteq> [] \<and> CHR ''>'' \<notin> set t \<longrightarrow>
      replaceTags (a @ CHR ''<'' # t @ CHR ''>'' # b) = a @ CHR '' '' # replaceTags b)
   \<and> (CHR ''<'' \<notin> set a' \<longrightarrow>
      replaceTags (a' @ CHR ''<'' # CHR ''>'' # b') = a' @ CHR ''<'' # CHR ''>'' # replaceTags b')
   \<and> (CHR ''<'' \<notin> set a'' \<and> CHR ''>'' \<notin> set t'' \<longrightarrow>
      replaceTags (a'' @ CHR ''<'' # t'') = a'' @ CHR ''<'' # t'')
   \<and> (CHR ''<'' \<notin> set p \<longrightarrow> replaceTags p = p)
   \<and> ((u = [] \<or> \<not> isWhiteSpace (last u)) \<and> w \<noteq> [] \<and> (\<forall>c\<in>set w. isWhiteSpace c)
        \<and> (v = [] \<or> \<not> isWhiteSpace (hd v)) \<longrightarrow>
      collapseWhiteSpace (u @ w @ v) = collapseWhiteSpace u @ CHR '' '' # collapseWhiteSpace v)
   \<and> ((\<forall>c\<in>set q. \<not> isWhiteSpace c) \<longrightarrow> collapseWhiteSpace q = q)
   \<and> ((\<forall>c\<in>set w1. isWhiteSpace c) \<and> (\<forall>c\<in>set w2. isWhiteSpace c)
        \<and> (m = [] \<or> \<not> isWhiteSpace (hd m) \<and> \<not> isWhiteSpace (last m)) \<longrightarrow>
      trim (w1 @ m @ w2) = m)
   \<and> decodeHtmlEntities [] = []
   \<and> (x \<noteq> CHR ''&'' \<longrightarrow> decodeHtmlEntities (x # r1) = x # decodeHtmlEntities r1)
   \<and> (er \<in> set entities \<and> fst er \<noteq> ''&amp;'' \<longrightarrow>
        decodeHtmlEntities (fst er @ r2) = snd er @ decodeHtmlEntities r2)
   \<and> ((\<forall>e\<in>set entities. fst e \<noteq> ''&amp;'' \<longrightarrow> \<not> startsWith (CHR ''&'' # r3) (fst e)) \<longrightarrow>
        decodeHtmlEntities (''&amp;'' @ r3) = ''&'' @ decodeHtmlEntities r3)
   \<and> (ed \<in> set entities \<and> fst ed \<noteq> ''&amp;'' \<longrightarrow>
        decodeHtmlEntities (''&amp;'' @ tl (fst ed) @ r4) = snd ed @ decodeHtmlEntities r4)
   \<and> ((\<forall>e\<in>set entities. \<not> startsWith (CHR ''&'' # r5) (fst e)) \<longrightarrow>
        decodeHtmlEntities (CHR ''&'' # r5) = CHR ''&'' # decodeHtmlEntities r5)
   \<and> decodeHtmlEntities ''&amp;'' = ''&'' \<and> decodeHtmlEntities ''&lt;'' = ''<''
   \<and> decodeHtmlEntities ''&gt;'' = ''>'' \<and> decodeHtmlEntities ''&quot;'' = [CHR 0x22]
   \<and> decodeHtmlEntities ''&#39;'' = [CHR 0x27] \<and> decodeHtmlEntities ''&#96;'' = ''`''
   \<and> (CHR ''&'' \<notin> set s \<longrightarrow> decodeHtmlEntities s = s)
   \<and> extractTextFromHtml ''<h2>Hello &amp; World</h2><p>A <b>bold</b> test.</p>'' ''h2''
       = ''Hello & World''
   \<and> extractTextFromHtml ''<h2>Hello &amp; World</h2><p>A <b>bold</b> test.</p>'' ''p''
       = ''A bold test.''"
proof -
  have six: "decodeHtmlEntities ''&amp;'' = ''&''" "decodeHtmlEntities ''&lt;'' = ''<''"
    "decodeHtmlEntities ''&gt;'' = ''>''" "decodeHtmlEntities ''&quot;'' = [CHR 0x22]"
    "decodeHtmlEntities ''&#39;'' = [CHR 0x27]" "decodeHtmlEntities ''&#96;'' = ''`''"
    by code_simp+
  have ex: "extractTextFromHtml ''<h2>Hello &amp; World</h2><p>A <b>bold</b> test.</p>'' ''h2''
       = ''Hello & World''"
    "extractTextFromHtml ''<h2>Hello &amp; World</h2><p>A <b>bold</b> test.</p>'' ''p''
       = ''A bold test.''"
    by code_simp+
  have run: "collapseWhiteSpace (u @ w @ v) = collapseWhiteSpace u @ CHR '' '' # collapseWhiteSpace v"
    if "u = [] \<or> \<not> isWhiteSpace (last u)" "w \<noteq> []" "\<forall>c\<in>set w. isWhiteSpace c"
      "v = [] \<or> \<not> isWhiteSpace (hd v)"
    using that by (simp add: collapseWhiteSpace_append collapseWhiteSpace_run)
  have dbl: "decodeHtmlEntities (''&amp;'' @ tl (fst ed) @ r4) = snd ed @ decodeHtmlEntities r4"
    if "ed \<in> set entities" "fst ed \<noteq> ''&amp;''"
    using decode_double [OF that, of "[]" r4] by (simp add: decode_Nil)
  have pipeline: "extractTextFromHtml html tagName
        = decodeHtmlEntities (trim (collapseWhiteSpace (replaceTags raw)))"
    if "matchFirst tagName html = Some raw"
    using that by (simp add: extractTextFromHtml_def)
  have c1: "matchFirst tagName html = Some raw \<longrightarrow>
      extractTextFromHtml html tagName
        = decodeHtmlEntities (trim (collapseWhiteSpace (replaceTags raw)))"
    using pipeline by blast
  have c2: "CHR ''<'' \<notin> set a \<and> t \<noteq> [] \<and> CHR ''>'' \<notin> set t \<longrightarrow>
      replaceTags (a @ CHR ''<'' # t @ CHR ''>'' # b) = a @ CHR '' '' # replaceTags b"
    using replaceTags_tag [of a t b] by blast
  have c2a: "CHR ''<'' \<notin> set a' \<longrightarrow>
      replaceTags (a' @ CHR ''<'' # CHR ''>'' # b') = a' @ CHR ''<'' # CHR ''>'' # replaceTags b'"
    using replaceTags_empty_tag [of a' b'] by blast
  have c2b: "CHR ''<'' \<notin> set a'' \<and> CHR ''>'' \<notin> set t'' \<longrightarrow>
      replaceTags (a'' @ CHR ''<'' # t'') = a'' @ CHR ''<'' # t''"
    using replaceTags_unclosed [of a'' t''] by blast
  have c2c: "CHR ''<'' \<notin> set p \<longrightarrow> replaceTags p = p"
    using replaceTags_prefix [of p "[]"] by simp
  have c3a: "(\<forall>c\<in>set q. \<not> isWhiteSpace c) \<longrightarrow> collapseWhiteSpace q = q"
    using collapseWhiteSpace_plain [of q] by blast
  have c3: "(u = [] \<or> \<not> isWhiteSpace (last u)) \<and> w \<noteq> [] \<and> (\<forall>c\<in>set w. isWhiteSpace c)
        \<and> (v = [] \<or> \<not> isWhiteSpace (hd v)) \<longrightarrow>
      collapseWhiteSpace (u @ w @ v) = collapseWhiteSpace u @ CHR '' '' # collapseWhiteSpace v"
    using run by blast
  have c4: "(\<forall>c\<in>set w1. isWhiteSpace c) \<and> (\<forall>c\<in>set w2. isWhiteSpace c)
        \<and> (m = [] \<or> \<not> isWhiteSpace (hd m) \<and> \<not> isWhiteSpace (last m)) \<longrightarrow>
      trim (w1 @ m @ w2) = m"
    using trim_core [of w1 w2 m] by blast
  have c5: "x \<noteq> CHR ''&'' \<longrightarrow> decodeHtmlEntities (x # r1) = x # decodeHtmlEntities r1"
    using decode_plain_char [of x r1] by blast
  have c6: "er \<in> set entities \<and> fst er \<noteq> ''&amp;'' \<longrightarrow>
        decodeHtmlEntities (fst er @ r2) = snd er @ decodeHtmlEntities r2"
    using decode_reference [of er r2] by blast
  have c7: "(\<forall>e\<in>set entities. fst e \<noteq> ''&amp;'' \<longrightarrow> \<not> startsWith (CHR ''&'' # r3) (fst e)) \<longrightarrow>
        decodeHtmlEntities (''&amp;'' @ r3) = ''&'' @ decodeHtmlEntities r3"
    using decode_amp [of r3] by blast
  have c8: "ed \<in> set entities \<and> fst ed \<noteq> ''&amp;'' \<longrightarrow>
        decodeHtmlEntities (''&amp;'' @ tl (fst ed) @ r4) = snd ed @ decodeHtmlEntities r4"
    using dbl by blast
  have c9: "(\<forall>e\<in>set entities. \<not> startsWith (CHR ''&'' # r5) (fst e)) \<longrightarrow>
        decodeHtmlEntities (CHR ''&'' # r5) = CHR ''&'' # decodeHtmlEntities r5"
    using decode_other_amp [of r5] by blast
  have c10: "CHR ''&'' \<notin> set s \<longrightarrow> decodeHtmlEntities s = s"
    using decodeHtmlEntities_plain [of s] by blast
  show ?thesis
    by (intro conjI c1 c2 c2a c2b c2c c3 c3a c4 c5 c6 c7 c8 c9 c10 six ex decode_Nil)
qed

text \<open>
  Claim C4 as stated fails on a tag with text on both sides: a tag is not removed but
  replaced by a space, so \<open>H<sub>2</sub>O\<close> becomes \<open>H 2 O\<close>, where removing the tags
  gives \<open>H2O\<close>.
\<close>

theorem extractTextFromHtml_tag_becomes_space:
  "matchFirst ''h2'' ''<h2>H<sub>2</sub>O</h2>'' = Some ''H<sub>2</sub>O''
   \<and> extractTextFromHtml ''<h2>H<sub>2</sub>O</h2>'' ''h2'' = ''H 2 O''
   \<and> postProcessAsSpecified ''H<sub>2</sub>O'' = ''H2O''"
  by code_simp

theorem extractTextFromHtml_post_processing_witness:
  "matchFirst ''h2'' ''<h2>H<sub>2</sub>O</h2>'' = Some ''H<sub>2</sub>O''
   \<and> extractTextFromHtml ''<h2>H<sub>2</sub>O</h2>'' ''h2''
       = decodeHtmlEntities (trim (collapseWhiteSpace (replaceTags ''H<sub>2</sub>O'')))
   \<and> replaceTags (''H'' @ CHR ''<'' # ''sub'' @ CHR ''>'' # ''2'') = ''H'' @ CHR '' '' # replaceTags ''2''
   \<and> replaceTags (''1 '' @ CHR ''<'' # CHR ''>'' # '' 2'') = ''1 '' @ CHR ''<'' # CHR ''>'' # replaceTags '' 2''
   \<and> replaceTags (''1 '' @ CHR ''<'' # '' 2'') = ''1 '' @ CHR ''<'' # '' 2''
   \<and> replaceTags ''2 > 1'' = ''2 > 1''
   \<and> collapseWhiteSpace (''a'' @ [CHR '' '', CHR 0x09, CHR 0x0A] @ ''b'')
       = collapseWhiteSpace ''a'' @ CHR '' '' # collapseWhiteSpace ''b''
   \<and> collapseWhiteSpace ''word'' = ''word''
   \<and> trim ([CHR 0x0A, CHR '' ''] @ ''a b'' @ [CHR 0xA0]) = ''a b''
   \<and> decodeHtmlEntities (CHR ''x'' # ''&lt;'') = CHR ''x'' # decodeHtmlEntities ''&lt;''
   \<and> decodeHtmlEntities (fst (''&gt;'', ''>'') @ ''y'') = snd (''&gt;'', ''>'') @ decodeHtmlEntities ''y''
   \<and> decodeHtmlEntities (''&amp;'' @ '' b'') = ''&'' @ decodeHtmlEntities '' b''
   \<and> decodeHtmlEntities (''&amp;'' @ tl (fst (''&quot;'', [CHR 0x22])) @ ''z'')
       = snd (''&quot;'', [CHR 0x22]) @ decodeHtmlEntities ''z''
   \<and> decodeHtmlEntities (CHR ''&'' # ''nbsp;x'') = CHR ''&'' # decodeHtmlEntities ''nbsp;x''
   \<and> decodeHtmlEntities ''plain text'' = ''plain text''"
proof -
  have h1: "matchFirst ''h2'' ''<h2>H<sub>2</sub>O</h2>'' = Some ''H<sub>2</sub>O''"
    by code_simp
  have h2: "CHR ''<'' \<notin> set ''H'' \<and> ''sub'' \<noteq> [] \<and> CHR ''>'' \<notin> set ''sub''"
    by simp
  have h3: "(''a'' = [] \<or> \<not> isWhiteSpace (last ''a'')) \<and> [CHR '' '', CHR 0x09, CHR 0x0A] \<noteq> []
      \<and> (\<forall>c\<in>set [CHR '' '', CHR 0x09, CHR 0x0A]. isWhiteSpace c)
      \<and> (''b'' = [] \<or> \<not> isWhiteSpace (hd ''b''))"
    by code_simp
  have h4: "(\<forall>c\<in>set [CHR 0x0A, CHR '' '']. isWhiteSpace c) \<and> (\<forall>c\<in>set [CHR 0xA0]. isWhiteSpace c)
      \<and> (''a b'' = [] \<or> \<not> isWhiteSpace (hd ''a b'') \<and> \<not> isWhiteSpace (last ''a b''))"
    by code_simp
  have h5: "CHR ''&'' \<notin> set ''plain text''"
    by simp
  have h6: "CHR ''x'' \<noteq> CHR ''&''"
    by simp
  have h7: "(''&gt;'', ''>'') \<in> set entities \<and> fst (''&gt;'', ''>'') \<noteq> ''&amp;''"
    by code_simp
  have h8: "\<forall>e\<in>set entities. fst e \<noteq> ''&amp;'' \<longrightarrow> \<not> startsWith (CHR ''&'' # '' b'') (fst e)"
    by code_simp
  have h9: "(''&quot;'', [CHR 0x22]) \<in> set entities \<and> fst (''&quot;'', [CHR 0x22]) \<noteq> ''&amp;''"
    by code_simp
  have h10: "\<forall>e\<in>set entities. \<not> startsWith (CHR ''&'' # ''nbsp;x'') (fst e)"
    by code_simp
  have h11: "CHR ''<'' \<notin> set ''1 '' \<and> CHR ''>'' \<notin> set '' 2'' \<and> CHR ''<'' \<notin> set ''2 > 1''"
    by simp
  have h12: "\<forall>c\<in>set ''word''. \<not> isWhiteSpace c"
    by code_simp
  from extractTextFromHtml_post_processing
    [where a' = "''1 ''" and b' = "'' 2''" and a'' = "''1 ''" and t'' = "'' 2''"
      and p = "''2 > 1''" and q = "''word''" and tagName = "''h2''" and html = "''<h2>H<sub>2</sub>O</h2>''"
      and raw = "''H<sub>2</sub>O''" and a = "''H''" and t = "''sub''" and b = "''2''"
      and u = "''a''" and w = "[CHR '' '', CHR 0x09, CHR 0x0A]" and v = "''b''"
      and ?w1.0 = "[CHR 0x0A, CHR '' '']" and m = "''a b''" and ?w2.0 = "[CHR 0xA0]"
      and s = "''plain text''" and x = "CHR ''x''" and ?r1.0 = "''&lt;''"
      and er = "(''&gt;'', ''>'')" and ?r2.0 = "''y''" and ?r3.0 = "'' b''"
      and ed = "(''&quot;'', [CHR 0x22])" and ?r4.0 = "''z''" and ?r5.0 = "''nbsp;x''"]
    h1 h2 h3 h4 h5 h6 h7 h8 h9 h10 h11 h12
  show ?thesis
    by blast
qed

text \<open>
  Claim C10. The six replacements run one after the other and \<open>&amp;\<close> is replaced
  first, so the \<open>&\<close> it produces starts a reference for a later replacement: wherever
  a text contains \<open>&amp;lt;\<close>, that sequence is decoded to \<open><\<close>, with the text before
  it and the text after it decoded on their own, and likewise for the other four
  references. A decoding of the six references in one pass gives \<open>&lt;\<close> instead.
\<close>

theorem decodeHtmlEntities_sequential:
  "decodeHtmlEntities (pre @ ''&amp;lt;'' @ rest)
     = decodeHtmlEntities pre @ ''<'' @ decodeHtmlEntities rest
   \<and> decodeHtmlEntities (pre @ ''&amp;gt;'' @ rest)
       = decodeHtmlEntities pre @ ''>'' @ decodeHtmlEntities rest
   \<and> decodeHtmlEntities (pre @ ''&amp;quot;'' @ rest)
       = decodeHtmlEntities pre @ [CHR 0x22] @ decodeHtmlEntities rest
   \<and> decodeHtmlEntities (pre @ ''&amp;#39;'' @ rest)
       = decodeHtmlEntities pre @ [CHR 0x27] @ decodeHtmlEntities rest
   \<and> decodeHtmlEntities (pre @ ''&amp;#96;'' @ rest)
       = decodeHtmlEntities pre @ ''`'' @ decodeHtmlEntities rest
   \<and> decodeHtmlEntities ''&amp;lt;'' = ''<''
   \<and> decodeSimultaneous ''&amp;lt;'' = ''&lt;''"
proof -
  have one: "decodeSimultaneous ''&amp;lt;'' = ''&lt;''"
    by code_simp
  have two: "decodeHtmlEntities ''&amp;lt;'' = ''<''"
    by code_simp
  have lt: "decodeHtmlEntities (pre @ ''&amp;lt;'' @ rest)
     = decodeHtmlEntities pre @ ''<'' @ decodeHtmlEntities rest"
    using decode_double [of "(''&lt;'', ''<'')" pre rest] by (simp add: entities_def)
  have gt: "decodeHtmlEntities (pre @ ''&amp;gt;'' @ rest)
       = decodeHtmlEntities pre @ ''>'' @ decodeHtmlEntities rest"
    using decode_double [of "(''&gt;'', ''>'')" pre rest] by (simp add: entities_def)
  have quot: "decodeHtmlEntities (pre @ ''&amp;quot;'' @ rest)
       = decodeHtmlEntities pre @ [CHR 0x22] @ decodeHtmlEntities rest"
    using decode_double [of "(''&quot;'', [CHR 0x22])" pre rest] by (simp add: entities_def)
  have apos: "decodeHtmlEntities (pre @ ''&amp;#39;'' @ rest)
       = decodeHtmlEntities pre @ [CHR 0x27] @ decodeHtmlEntities rest"
    using decode_double [of "(''&#39;'', [CHR 0x27])" pre rest] by (simp add: entities_def)
  have tick: "decodeHtmlEntities (pre @ ''&amp;#96;'' @ rest)
       = decodeHtmlEntities pre @ ''`'' @ decodeHtmlEntities rest"
    using decode_double [of "(''&#96;'', ''`'')" pre rest] by (simp add: entities_def)
  show ?thesis
    by (intro conjI lt gt quot apos tick one two)
qed

end
